theory Spec2Isabelle
  imports Complex_Main "HOL-Library.AList" "HOL-Library.Char_ord" "HOL-Library.List_Lexorder"
begin

section \<open>Text, values and dictionaries\<close>

text \<open>
  A log text is modelled as the sequence of the bytes of its UTF-8 encoding, so an offset is a
  byte offset. The character classes of the patterns are the ASCII ones: \<open>\d\<close> is
  \<open>0\<close> to \<open>9\<close>, \<open>\s\<close> is the blank, the control characters 9 to 13 and 28 to 31.
  Digits and blanks outside ASCII, which the interpreter's \<open>\d\<close> and \<open>\s\<close> also accept,
  are outside the model.
\<close>

definition is_digit :: "char \<Rightarrow> bool" where
  "is_digit c = (48 \<le> (of_char c :: nat) \<and> (of_char c :: nat) \<le> 57)"

definition is_space :: "char \<Rightarrow> bool" where
  "is_space c = ((9 \<le> (of_char c :: nat) \<and> (of_char c :: nat) \<le> 13)
     \<or> (28 \<le> (of_char c :: nat) \<and> (of_char c :: nat) \<le> 32))"

definition is_event_char :: "char \<Rightarrow> bool" where
  \<comment> \<open>the class \<open>[A-Z_]\<close>\<close>
  "is_event_char c = ((65 \<le> (of_char c :: nat) \<and> (of_char c :: nat) \<le> 90) \<or> (of_char c :: nat) = 95)"

definition is_digit_or_dot :: "char \<Rightarrow> bool" where
  \<comment> \<open>the class \<open>[\d.]\<close>\<close>
  "is_digit_or_dot c = (is_digit c \<or> c = CHR ''.'')"

fun strip_prefix :: "string \<Rightarrow> string \<Rightarrow> string option" where
  "strip_prefix [] s = Some s"
| "strip_prefix (p # ps) [] = None"
| "strip_prefix (p # ps) (c # cs) = (if p = c then strip_prefix ps cs else None)"

definition py_int :: "string \<Rightarrow> int" where
  \<comment> \<open>\<open>int(s)\<close> on a string of decimal digits (the interpreter's optional limit on
      the number of digits is left out)\<close>
  "py_int ds = foldl (\<lambda>a c. 10 * a + int (of_char c - 48)) 0 ds"

text \<open>
  \<open>re.finditer\<close> and \<open>re.findall\<close>: the text is scanned from the left; where the pattern
  matches, the match is reported with its offset and the scan goes on behind it; where it
  does not, the scan moves on by one character. None of the patterns matches the empty
  string. A matcher returns its groups together with the length of the whole match.
\<close>

fun scan_matches :: "(string \<Rightarrow> ('a \<times> nat) option) \<Rightarrow> nat \<Rightarrow> nat \<Rightarrow> string \<Rightarrow> (nat \<times> 'a) list" where
  "scan_matches m skip pos [] = []"
| "scan_matches m skip pos (c # cs) =
     (if 0 < skip then scan_matches m (skip - 1) (pos + 1) cs
      else case m (c # cs) of
             None \<Rightarrow> scan_matches m 0 (pos + 1) cs
           | Some (g, len) \<Rightarrow> (pos, g) # scan_matches m (len - 1) (pos + 1) cs)"

definition finditer :: "(string \<Rightarrow> ('a \<times> nat) option) \<Rightarrow> string \<Rightarrow> (nat \<times> 'a) list" where
  "finditer m content = scan_matches m 0 0 content"

definition findall :: "(string \<Rightarrow> ('a \<times> nat) option) \<Rightarrow> string \<Rightarrow> 'a list" where
  "findall m content = map snd (finditer m content)"

fun re_search :: "(string \<Rightarrow> ('a \<times> nat) option) \<Rightarrow> string \<Rightarrow> 'a option" where
  "re_search m [] = map_option fst (m [])"
| "re_search m (c # cs) =
     (case m (c # cs) of Some (g, len) \<Rightarrow> Some g | None \<Rightarrow> re_search m cs)"

text \<open>
  Values of the interpreter. A float is modelled by the real number it stands for; rounding
  to binary floating point is outside the model. A dictionary is an association list with
  distinct keys in insertion order: \<open>d[k] = v\<close> is \<^const>\<open>AList.update\<close>, \<open>d.get(k)\<close> is
  \<^const>\<open>map_of\<close>.
\<close>

datatype pyval =
    PNone
  | PBool bool
  | PInt int
  | PFloat real
  | PStr string
  | PList "pyval list"
  | PDict "(string \<times> pyval) list"

type_synonym row = "(string \<times> pyval) list"

definition dict_get :: "('k \<times> 'v) list \<Rightarrow> 'k \<Rightarrow> 'v \<Rightarrow> 'v" where
  \<comment> \<open>\<open>d.get(k, default)\<close>\<close>
  "dict_get d k dflt = (case map_of d k of None \<Rightarrow> dflt | Some v \<Rightarrow> v)"

definition opt_int :: "int option \<Rightarrow> pyval" where
  "opt_int v = (case v of None \<Rightarrow> PNone | Some i \<Rightarrow> PInt i)"

section \<open>Timing events\<close>

text \<open>
  The pattern \<open>processingTimer\.js:\d+\s+([A-Z_]+):\s+(\d+)\<close> and its twin for
  \<open>fileHashWorker.js\<close>. The classes that follow each other are disjoint, so the greedy
  match is the only one: each run of digits, blanks and capitals is taken whole.
\<close>

definition span_while :: "(char \<Rightarrow> bool) \<Rightarrow> string \<Rightarrow> string \<times> string" where
  "span_while P s = (takeWhile P s, dropWhile P s)"

definition match_timing :: "string \<Rightarrow> string \<Rightarrow> ((string \<times> string) \<times> nat) option" where
  "match_timing file s =
     (case strip_prefix (file @ '':'') s of
        None \<Rightarrow> None
      | Some r1 \<Rightarrow>
         (let (d1, r2) = span_while is_digit r1 in
          if d1 = [] then None else
          let (w1, r3) = span_while is_space r2 in
          if w1 = [] then None else
          let (ev, r4) = span_while is_event_char r3 in
          if ev = [] then None else
          (case r4 of
             [] \<Rightarrow> None
           | c # r5 \<Rightarrow>
              if c \<noteq> CHR '':'' then None else
              let (w2, r6) = span_while is_space r5 in
              if w2 = [] then None else
              let (d2, r7) = span_while is_digit r6 in
              if d2 = [] then None else Some ((ev, d2), length s - length r7))))"

definition main_pattern :: "string \<Rightarrow> ((string \<times> string) \<times> nat) option" where
  "main_pattern = match_timing ''processingTimer.js''"

definition worker_pattern :: "string \<Rightarrow> ((string \<times> string) \<times> nat) option" where
  "worker_pattern = match_timing ''fileHashWorker.js''"

type_synonym timing_event = "nat \<times> string \<times> int \<times> string"

definition all_matches :: "string \<Rightarrow> timing_event list" where
  \<comment> \<open>the matches of both patterns, sorted by offset (the sort is stable)\<close>
  "all_matches content =
     sort_key fst
       (map (\<lambda>(pos, event_type, timing). (pos, event_type, py_int timing, ''main''))
            (finditer main_pattern content)
        @ map (\<lambda>(pos, event_type, timing). (pos, event_type, py_int timing, ''worker''))
            (finditer worker_pattern content))"

subsection \<open>\<open>docs/plans/Bookkeeper/speed_tests/parse_console_log.py\<close>: \<open>parse_timing_data\<close>\<close>

record timing_state =
  test_run_data :: "(nat \<times> (string \<times> int) list) list"
  test_run_positions :: "(nat \<times> nat) list"
  current_test_run :: nat

definition timing_init :: timing_state where
  "timing_init = \<lparr>test_run_data = [], test_run_positions = [], current_test_run = 0\<rparr>"

definition store_event :: "(nat \<times> (string \<times> int) list) list \<Rightarrow> nat \<Rightarrow> string \<Rightarrow> int
    \<Rightarrow> (nat \<times> (string \<times> int) list) list" where
  \<comment> \<open>\<open>test_run_data[run][event_type] = timing\<close> on a \<open>defaultdict(dict)\<close>\<close>
  "store_event trd run event_type timing =
     AList.update run (AList.update event_type timing (dict_get trd run [])) trd"

definition timing_step :: "timing_state \<Rightarrow> timing_event \<Rightarrow> timing_state" where
  "timing_step st ev =
     (case ev of (pos, event_type, timing, source) \<Rightarrow>
        let st1 = (if event_type = ''PROCESSING_START''
                   then st\<lparr>current_test_run := current_test_run st + 1,
                           test_run_positions :=
                             AList.update (current_test_run st + 1) pos (test_run_positions st)\<rparr>
                   else st)
        in if 0 < current_test_run st1
           then st1\<lparr>test_run_data :=
                      store_event (test_run_data st1) (current_test_run st1) event_type timing\<rparr>
           else st1)"

definition group_timing :: "timing_event list \<Rightarrow> timing_state" where
  "group_timing evs = foldl timing_step timing_init evs"

text \<open>
  \<open>detect_execution_mode\<close> looks for three patterns in the 5000 characters behind the
  offset of the run's boundary marker. The model counts bytes, so on a text with characters
  outside ASCII its window is the shorter one; no property below reads the column.
\<close>

definition match_worker_event :: "string \<Rightarrow> string \<Rightarrow> (unit \<times> nat) option" where
  \<comment> \<open>\<open>fileHashWorker\.js:\d+\s+NAME\<close>\<close>
  "match_worker_event name s =
     (case strip_prefix ''fileHashWorker.js:'' s of
        None \<Rightarrow> None
      | Some r1 \<Rightarrow>
         (let (d1, r2) = span_while is_digit r1 in
          if d1 = [] then None else
          let (w1, r3) = span_while is_space r2 in
          if w1 = [] then None else
          (case strip_prefix name r3 of
             None \<Rightarrow> None
           | Some r4 \<Rightarrow> Some ((), length s - length r4))))"

definition match_literal :: "string \<Rightarrow> string \<Rightarrow> (unit \<times> nat) option" where
  "match_literal lit s = (case strip_prefix lit s of None \<Rightarrow> None | Some r \<Rightarrow> Some ((), length lit))"

definition detect_execution_mode :: "string \<Rightarrow> nat \<Rightarrow> bool" where
  "detect_execution_mode content test_run_start_pos =
     (let search_window = take 5000 (drop test_run_start_pos content) in
      re_search (match_worker_event ''SIZE_ANALYSIS_COMPLETE'') search_window \<noteq> None
      \<or> re_search (match_worker_event ''HASH_CALCULATION_COMPLETE'') search_window \<noteq> None
      \<or> re_search (match_literal ''Web Worker restart failed, falling back to main thread processing'')
            search_window \<noteq> None)"

definition timing_row :: "nat \<Rightarrow> bool \<Rightarrow> (string \<times> int) list \<Rightarrow> row" where
  "timing_row test_run is_worker_mode data =
     (let processing_start = dict_get data ''PROCESSING_START'' 0;
          deduplication_start = map_of data ''DEDUPLICATION_START'';
          ui_update_start = map_of data ''UI_UPDATE_START'';
          all_files_displayed = map_of data ''ALL_FILES_DISPLAYED'';
          phase1_duration =
            (case deduplication_start of None \<Rightarrow> None | Some d \<Rightarrow> Some (d - processing_start));
          phase2_duration =
            (case (ui_update_start, deduplication_start) of
               (Some u, Some d) \<Rightarrow> Some (u - d) | _ \<Rightarrow> None);
          phase3_duration =
            (case (all_files_displayed, ui_update_start) of
               (Some a, Some u) \<Rightarrow> Some (a - u) | _ \<Rightarrow> None);
          total_duration =
            (case all_files_displayed of None \<Rightarrow> None | Some a \<Rightarrow> Some (a - processing_start))
      in [(''Test Run #'', PInt (int test_run)),
          (''isWorkerMode'', PBool is_worker_mode),
          (''totalDurationMs'', opt_int total_duration),
          (''phase1FileAnalysisMs'', opt_int phase1_duration),
          (''phase2HashProcessingMs'', opt_int phase2_duration),
          (''phase3UIRenderingMs'', opt_int phase3_duration),
          (''PROCESSING_START'', PInt processing_start),
          (''DEDUPLICATION_START'', opt_int deduplication_start),
          (''UI_UPDATE_START'', opt_int ui_update_start),
          (''ALL_FILES_DISPLAYED'', opt_int all_files_displayed)])"

definition timing_rows :: "string \<Rightarrow> timing_state \<Rightarrow> row list" where
  "timing_rows content st =
     map (\<lambda>test_run.
            timing_row test_run
              (detect_execution_mode content (dict_get (test_run_positions st) test_run 0))
              (dict_get (test_run_data st) test_run []))
         (sort (map fst (test_run_data st)))"

definition parse_timing_data :: "string \<Rightarrow> row list" where
  "parse_timing_data content = timing_rows content (group_timing (all_matches content))"

subsection \<open>\<open>docs/speed_tests/parse_console_log.py\<close>: \<open>parse_timing_data\<close>\<close>

text \<open>
  The older script reads the main pattern only, starts its run counter at 1 and stores every
  event under the current counter.
\<close>

definition timing_step_speed_tests ::
    "(nat \<times> (string \<times> int) list) list \<times> nat \<Rightarrow> string \<times> string
     \<Rightarrow> (nat \<times> (string \<times> int) list) list \<times> nat" where
  "timing_step_speed_tests st m =
     (case (st, m) of ((trd, current), (event_type, timing)) \<Rightarrow>
        let current1 = (if event_type = ''PROCESSING_START'' then current + 1 else current)
        in (store_event trd current1 event_type (py_int timing), current1))"

definition group_timing_speed_tests ::
    "(string \<times> string) list \<Rightarrow> (nat \<times> (string \<times> int) list) list \<times> nat" where
  "group_timing_speed_tests matches = foldl timing_step_speed_tests ([], 1) matches"

definition expected_columns :: "string list" where
  "expected_columns =
     [''PROCESSING_START'', ''DEDUPLICATION_START'', ''WORKER_SEND'',
      ''SIZE_ANALYSIS_COMPLETE'', ''HASH_CALCULATION_COMPLETE'', ''DEDUP_LOGIC_START'',
      ''DEDUP_LOGIC_COMPLETE'', ''WORKER_COMPLETE'', ''RESULT_MAPPING_COMPLETE'',
      ''UI_UPDATE_START'', ''CHUNK1_START'', ''CHUNK1_COMPLETE'',
      ''CHUNK2_START'', ''DOM_RENDER_COMPLETE'', ''CHUNK2_COMPLETE'', ''ALL_FILES_DISPLAYED'']"

definition timing_row_speed_tests :: "nat \<Rightarrow> (string \<times> int) list \<Rightarrow> row" where
  "timing_row_speed_tests test_run data =
     foldl (\<lambda>row column.
              AList.update column
                (case map_of data column of None \<Rightarrow> PStr [] | Some t \<Rightarrow> PInt t) row)
           [(''Test Run #'', PInt (int test_run))] expected_columns"

definition parse_timing_data_speed_tests :: "string \<Rightarrow> row list" where
  "parse_timing_data_speed_tests content =
     (let trd = fst (group_timing_speed_tests (findall main_pattern content))
      in map (\<lambda>test_run. timing_row_speed_tests test_run (dict_get trd test_run []))
             (sort (map fst trd)))"

subsection \<open>\<open>docs/speed_tests/trial5_parser.py\<close>: the timing half of \<open>parse_trial5_data\<close>\<close>

definition timing_step_trial5 ::
    "(nat \<times> (string \<times> int) list) list \<times> nat \<Rightarrow> string \<times> string
     \<Rightarrow> (nat \<times> (string \<times> int) list) list \<times> nat" where
  "timing_step_trial5 st m =
     (case (st, m) of ((timing_data, current_run), (event, time_str)) \<Rightarrow>
        let current_run1 = (if event = ''PROCESSING_START'' then current_run + 1 else current_run)
        in if 0 < current_run1
           then (store_event timing_data current_run1 event (py_int time_str), current_run1)
           else (timing_data, current_run1))"

definition group_timing_trial5 ::
    "(string \<times> string) list \<Rightarrow> (nat \<times> (string \<times> int) list) list \<times> nat" where
  "group_timing_trial5 timing_matches = foldl timing_step_trial5 ([], 0) timing_matches"

definition timing_row_trial5 :: "nat \<Rightarrow> (string \<times> int) list \<Rightarrow> row" where
  "timing_row_trial5 run_num data =
     (let start = dict_get data ''PROCESSING_START'' 0;
          dedup_start = dict_get data ''DEDUPLICATION_START'' 0;
          ui_start = dict_get data ''UI_UPDATE_START'' 0;
          end = dict_get data ''ALL_FILES_DISPLAYED'' 0;
          phase1 = (if dedup_start \<ge> start then Some (dedup_start - start) else None);
          phase2 = (if ui_start \<ge> dedup_start then Some (ui_start - dedup_start) else None);
          phase3 = (if end \<ge> ui_start then Some (end - ui_start) else None);
          total = (if end \<ge> start then Some (end - start) else None)
      in [(''TestRun'', PInt (int run_num)),
          (''totalDurationMs'', opt_int total),
          (''phase1FileAnalysisMs'', opt_int phase1),
          (''phase2HashProcessingMs'', opt_int phase2),
          (''phase3UIRenderingMs'', opt_int phase3),
          (''PROCESSING_START'', PInt start),
          (''DEDUPLICATION_START'', PInt dedup_start),
          (''UI_UPDATE_START'', PInt ui_start),
          (''ALL_FILES_DISPLAYED'', PInt end)])"

definition processed_timing_trial5 :: "string \<Rightarrow> row list" where
  "processed_timing_trial5 content =
     (let timing_data = fst (group_timing_trial5 (findall main_pattern content))
      in map (\<lambda>run_num. timing_row_trial5 run_num (dict_get timing_data run_num []))
             (sort (map fst timing_data)))"

subsection \<open>The phases and the timestamps they are derived from\<close>

definition phase_definitions :: "(string \<times> string \<times> string) list" where
  \<comment> \<open>phase, end-named timestamp, start-named timestamp\<close>
  "phase_definitions =
     [(''phase1FileAnalysisMs'', ''DEDUPLICATION_START'', ''PROCESSING_START''),
      (''phase2HashProcessingMs'', ''UI_UPDATE_START'', ''DEDUPLICATION_START''),
      (''phase3UIRenderingMs'', ''ALL_FILES_DISPLAYED'', ''UI_UPDATE_START''),
      (''totalDurationMs'', ''ALL_FILES_DISPLAYED'', ''PROCESSING_START'')]"

subsection \<open>Boundary markers\<close>

definition event_name :: "timing_event \<Rightarrow> string" where
  "event_name ev = fst (snd ev)"

definition starts :: "timing_event list \<Rightarrow> nat" where
  \<comment> \<open>the number of boundary markers among the events\<close>
  "starts evs = length (filter (\<lambda>ev. event_name ev = ''PROCESSING_START'') evs)"

definition starts_speed_tests :: "(string \<times> string) list \<Rightarrow> nat" where
  "starts_speed_tests ms = length (filter (\<lambda>m. fst m = ''PROCESSING_START'') ms)"

section \<open>Folder metrics\<close>

datatype py_error =
    ValueError
  | TypeError
  | AttributeError
  | KeyError
  | OverflowError
  | JSONDecodeError
  | RecursionError
  | OSError
  | UnicodeDecodeError

text \<open>The lines a function prints, with the values they show.\<close>

datatype message =
    Found_entries nat
  | Entry_line nat pyval pyval pyval
  | Warning_failed_to_parse string py_error
  | Warning_json string py_error
  | Warning_error_processing py_error

definition microscope :: string where
  \<comment> \<open>the UTF-8 bytes of U+1F52C, which opens the marker\<close>
  "microscope = [CHR 0xF0, CHR 0x9F, CHR 0x94, CHR 0xAC]"

definition microscope_misdecoded :: string where
  \<comment> \<open>the four characters U+00F0 U+0178 U+201D U+00AC that \<open>trial5_parser.py\<close> and
      \<open>improved_parser.py\<close> have in its place\<close>
  "microscope_misdecoded =
     [CHR 0xC3, CHR 0xB0, CHR 0xC5, CHR 0xB8, CHR 0xE2, CHR 0x80, CHR 0x9D, CHR 0xC2, CHR 0xAC]"

definition not_brace :: "char \<Rightarrow> bool" where
  \<comment> \<open>the class \<open>[^}]\<close>\<close>
  "not_brace c = (c \<noteq> CHR ''}'')"

definition match_braced :: "string \<Rightarrow> string \<Rightarrow> (string \<times> nat) option" where
  \<comment> \<open>a literal that ends in \<open>{\<close>, then \<open>([^}]+)\<close>, then \<open>}\<close>; an optional
      \<open>(?:, ...)?\<close> before the closing brace changes nothing, the class has taken it\<close>
  "match_braced lit s =
     (case strip_prefix lit s of
        None \<Rightarrow> None
      | Some r \<Rightarrow>
         (let (body, rest) = span_while not_brace r in
          if body = [] then None
          else case rest of [] \<Rightarrow> None | c # rest' \<Rightarrow> Some (body, length lit + length body + 1)))"

definition match_json_blob :: "string \<Rightarrow> string \<Rightarrow> (string \<times> nat) option" where
  \<comment> \<open>a literal, then \<open>({.+?})\<close> where the dot matches every character: the brace, one
      character, and the shortest text up to the next closing brace\<close>
  "match_json_blob lit s =
     (case strip_prefix lit s of
        None \<Rightarrow> None
      | Some r \<Rightarrow>
         (case r of
            b # c # r2 \<Rightarrow>
              if b \<noteq> CHR ''{'' then None
              else (let (body, rest) = span_while not_brace r2 in
                    case rest of
                      [] \<Rightarrow> None
                    | e # rest' \<Rightarrow> Some (b # c # body @ [e], length lit + length body + 3))
          | _ \<Rightarrow> None))"

datatype value_class = Digits | Digits_or_dot

definition in_class :: "value_class \<Rightarrow> char \<Rightarrow> bool" where
  "in_class cls c = (case cls of Digits \<Rightarrow> is_digit c | Digits_or_dot \<Rightarrow> is_digit_or_dot c)"

definition match_field :: "string \<Rightarrow> value_class \<Rightarrow> string \<Rightarrow> (string \<times> nat) option" where
  \<comment> \<open>\<open>name:\s*(\d+)\<close> or \<open>name:\s*([\d.]+)\<close>\<close>
  "match_field field cls s =
     (case strip_prefix (field @ '':'') s of
        None \<Rightarrow> None
      | Some r \<Rightarrow>
         (let (w, r1) = span_while is_space r;
              (v, r2) = span_while (in_class cls) r1
          in if v = [] then None else Some (v, length s - length r2)))"

definition py_float :: "string \<Rightarrow> real option" where
  \<comment> \<open>\<open>float(s)\<close> on a string of digits and dots: \<open>None\<close> is the \<open>ValueError\<close> of a
      string with two dots or with no digit\<close>
  "py_float v =
     (let ip = takeWhile is_digit v in
      case dropWhile is_digit v of
        [] \<Rightarrow> if ip = [] then None else Some (of_int (py_int ip))
      | c # fp \<Rightarrow>
          if c = CHR ''.'' \<and> list_all is_digit fp \<and> (ip \<noteq> [] \<or> fp \<noteq> [])
          then Some (of_int (py_int ip) + of_int (py_int fp) / 10 ^ length fp)
          else None)"

fun extract_fields :: "(string \<Rightarrow> pyval) \<Rightarrow> string list \<Rightarrow> (string \<times> value_class) list \<Rightarrow> string
    \<Rightarrow> (string \<times> pyval) list \<Rightarrow> py_error + (string \<times> pyval) list" where
  "extract_fields dflt float_fields [] m data = Inr data"
| "extract_fields dflt float_fields ((field, cls) # fps) m data =
     (case re_search (match_field field cls) m of
        None \<Rightarrow> extract_fields dflt float_fields fps m (AList.update field (dflt field) data)
      | Some v \<Rightarrow>
          if field \<in> set float_fields
          then (case py_float v of
                  None \<Rightarrow> Inl ValueError
                | Some x \<Rightarrow> extract_fields dflt float_fields fps m (AList.update field (PFloat x) data))
          else extract_fields dflt float_fields fps m (AList.update field (PInt (py_int v)) data))"

definition dict_index :: "(string \<times> pyval) list \<Rightarrow> string \<Rightarrow> py_error + pyval" where
  \<comment> \<open>\<open>d[k]\<close>\<close>
  "dict_index d k = (case map_of d k of None \<Rightarrow> Inl KeyError | Some v \<Rightarrow> Inr v)"

fun index_all :: "(string \<times> pyval) list \<Rightarrow> string list \<Rightarrow> py_error + row" where
  "index_all d [] = Inr []"
| "index_all d (k # ks) =
     (case dict_index d k of
        Inl e \<Rightarrow> Inl e
      | Inr v \<Rightarrow> (case index_all d ks of Inl e \<Rightarrow> Inl e | Inr r \<Rightarrow> Inr ((k, v) # r)))"

subsection \<open>\<open>docs/plans/Bookkeeper/speed_tests/parse_console_log.py\<close>: \<open>parse_folder_analysis_data\<close>\<close>

definition modal_pattern :: "string \<Rightarrow> (string \<times> nat) option" where
  "modal_pattern = match_braced (microscope @ '' FOLDER_ANALYSIS_DATA (Modal Predictors): {'')"

definition field_patterns :: "(string \<times> value_class) list" where
  "field_patterns =
     [(''timestamp'', Digits),
      (''totalFiles'', Digits),
      (''duplicateCandidateCount'', Digits),
      (''duplicateCandidatePercent'', Digits),
      (''uniqueFilesSizeMB'', Digits_or_dot),
      (''duplicateCandidatesSizeMB'', Digits_or_dot),
      (''totalSizeMB'', Digits_or_dot),
      (''totalDirectoryCount'', Digits),
      (''maxDirectoryDepth'', Digits),
      (''uniqueFilesTotal'', Digits),
      (''avgDirectoryDepth'', Digits_or_dot)]"

definition float_fields :: "string list" where
  "float_fields = [''totalSizeMB'', ''uniqueFilesSizeMB'', ''duplicateCandidatesSizeMB'', ''avgDirectoryDepth'']"

definition row_columns :: "string list" where
  "row_columns =
     [''timestamp'', ''totalFiles'', ''duplicateCandidateCount'', ''duplicateCandidatePercent'',
      ''uniqueFilesSizeMB'', ''duplicateCandidatesSizeMB'', ''totalSizeMB'', ''totalDirectoryCount'',
      ''maxDirectoryDepth'', ''uniqueFilesTotal'', ''avgDirectoryDepth'']"

definition folder_row :: "nat \<Rightarrow> string \<Rightarrow> py_error + row" where
  \<comment> \<open>the body of the \<open>try\<close>, up to the row\<close>
  "folder_row run_no m =
     (case extract_fields (\<lambda>field. PInt 0) float_fields field_patterns m [] of
        Inl e \<Rightarrow> Inl e
      | Inr data \<Rightarrow>
         (case index_all data row_columns of
            Inl e \<Rightarrow> Inl e
          | Inr r \<Rightarrow> Inr ((''TestRun#'', PInt (int run_no)) # r)))"

record folder_state =
  folder_data :: "row list"
  test_run :: nat
  printed :: "message list"

definition folder_step :: "folder_state \<Rightarrow> string \<Rightarrow> folder_state" where
  "folder_step st m =
     (case folder_row (test_run st) m of
        Inr r \<Rightarrow> st\<lparr>folder_data := folder_data st @ [r], test_run := test_run st + 1\<rparr>
      | Inl e \<Rightarrow> st\<lparr>printed := printed st @ [Warning_failed_to_parse m e]\<rparr>)"

definition parse_folder_analysis_data :: "string \<Rightarrow> row list \<times> message list" where
  \<comment> \<open>the records returned and the lines printed (a warning shows the first 50 characters
      of its match)\<close>
  "parse_folder_analysis_data content =
     (let st = foldl folder_step \<lparr>folder_data = [], test_run = 1, printed = []\<rparr>
                 (findall modal_pattern content)
      in (folder_data st, printed st))"

subsection \<open>\<open>docs/plans/Bookkeeper/speed_tests/improved_parser_json.py\<close>: \<open>parse_json_folder_analysis_data\<close>\<close>

text \<open>
  \<open>json.loads\<close> is the library's; the model takes it as the parameter \<open>loads\<close>, which
  returns the decoded value or the exception raised.
\<close>

definition json_pattern :: "string \<Rightarrow> (string \<times> nat) option" where
  "json_pattern = match_json_blob (microscope @ '' FOLDER_ANALYSIS_DATA: '')"

definition json_columns :: "(string \<times> pyval) list" where
  \<comment> \<open>the keys of the row with the default of each\<close>
  "json_columns =
     [(''timestamp'', PInt 0),
      (''totalFiles'', PInt 0),
      (''duplicateCandidateCount'', PInt 0),
      (''duplicateCandidatePercent'', PInt 0),
      (''uniqueFilesSizeMB'', PFloat 0),
      (''duplicateCandidatesSizeMB'', PFloat 0),
      (''totalSizeMB'', PFloat 0),
      (''totalDirectoryCount'', PInt 0),
      (''avgDirectoryDepth'', PFloat 0),
      (''maxDirectoryDepth'', PInt 0),
      (''uniqueFilesTotal'', PInt 0),
      (''maxFileDepth'', PInt 0),
      (''avgFileDepth'', PFloat 0),
      (''avgFilenameLength'', PFloat 0),
      (''zeroByteFiles'', PInt 0),
      (''largestFileSizesMB'', PFloat 0)]"

definition json_row :: "nat \<Rightarrow> pyval \<Rightarrow> py_error + row" where
  \<comment> \<open>\<open>data.get\<close> exists on a dictionary only\<close>
  "json_row run_no data =
     (case data of
        PDict d \<Rightarrow>
          Inr ((''TestRun#'', PInt (int run_no))
               # map (\<lambda>(key, dflt). (key, dict_get d key dflt)) json_columns)
      | _ \<Rightarrow> Inl AttributeError)"

definition format_1f :: "pyval \<Rightarrow> py_error option" where
  \<comment> \<open>the exception, if any, of formatting a value with \<open>:.1f\<close>; an integer is turned
      into a float first\<close>
  "format_1f v =
     (case v of
        PFloat x \<Rightarrow> None
      | PInt i \<Rightarrow> if \<bar>i\<bar> < 2 ^ 1024 - 2 ^ 970 then None else Some OverflowError
      | PBool b \<Rightarrow> None
      | PStr s \<Rightarrow> Some ValueError
      | _ \<Rightarrow> Some TypeError)"

definition json_step :: "(string \<Rightarrow> py_error + pyval) \<Rightarrow> folder_state \<Rightarrow> string \<Rightarrow> folder_state" where
  "json_step loads st m =
     (case loads m of
        Inl e \<Rightarrow>
          if e = JSONDecodeError then st\<lparr>printed := printed st @ [Warning_json m e]\<rparr>
          else st\<lparr>printed := printed st @ [Warning_error_processing e]\<rparr>
      | Inr data \<Rightarrow>
         (case json_row (test_run st) data of
            Inl e \<Rightarrow> st\<lparr>printed := printed st @ [Warning_error_processing e]\<rparr>
          | Inr r \<Rightarrow>
             (let st1 = st\<lparr>folder_data := folder_data st @ [r], test_run := test_run st + 1\<rparr>;
                  d = (case data of PDict d \<Rightarrow> d | _ \<Rightarrow> [])
              in case format_1f (dict_get d ''totalSizeMB'' (PInt 0)) of
                   None \<Rightarrow>
                     st1\<lparr>printed := printed st1 @
                        [Entry_line (test_run st1 - 1) (dict_get d ''totalFiles'' (PInt 0))
                           (dict_get d ''duplicateCandidateCount'' (PInt 0))
                           (dict_get d ''totalSizeMB'' (PInt 0))]\<rparr>
                 | Some e \<Rightarrow> st1\<lparr>printed := printed st1 @ [Warning_error_processing e]\<rparr>)))"

definition parse_json_folder_analysis_data ::
    "(string \<Rightarrow> py_error + pyval) \<Rightarrow> string \<Rightarrow> row list \<times> message list" where
  "parse_json_folder_analysis_data loads content =
     (let matches = findall json_pattern content;
          st = foldl (json_step loads)
                 \<lparr>folder_data = [], test_run = 1, printed = [Found_entries (length matches)]\<rparr> matches
      in (folder_data st, printed st))"

subsection \<open>\<open>docs/speed_tests/improved_parser.py\<close>: \<open>extract_complete_folder_data\<close>\<close>

text \<open>
  The pattern ends in \<open>(.+?)(?=\n[^\s]|\n$)\<close>, the dot matching every character: the
  shortest text, of one character at least, that is followed by a line break and a character
  that is no blank, or by a line break at the end of the text (or before its last line
  break). The function has no \<open>try\<close>: a \<open>ValueError\<close> of \<open>float\<close> ends it. The lines
  it prints are left out of the model.
\<close>

definition lookahead_line :: "string \<Rightarrow> bool" where
  "lookahead_line r =
     (case r of
        [] \<Rightarrow> False
      | n # r' \<Rightarrow>
          n = CHR 0x0A \<and>
          (case r' of
             [] \<Rightarrow> True
           | d # r'' \<Rightarrow> \<not> is_space d \<or> (d = CHR 0x0A \<and> r'' = [])))"

fun lazy_body :: "string \<Rightarrow> string option" where
  "lazy_body [] = None"
| "lazy_body (c # cs) = (if lookahead_line cs then Some [c] else map_option ((#) c) (lazy_body cs))"

definition match_until_line :: "string \<Rightarrow> string \<Rightarrow> (string \<times> nat) option" where
  "match_until_line lit s =
     (case strip_prefix lit s of
        None \<Rightarrow> None
      | Some r \<Rightarrow> (case lazy_body r of None \<Rightarrow> None | Some body \<Rightarrow> Some (body, length lit + length body)))"

definition improved_pattern :: "string \<Rightarrow> (string \<times> nat) option" where
  "improved_pattern =
     match_until_line (microscope_misdecoded @ '' FOLDER_ANALYSIS_DATA (Modal Predictors): '')"

definition field_patterns_improved :: "(string \<times> value_class) list" where
  "field_patterns_improved =
     [(''timestamp'', Digits),
      (''totalFiles'', Digits),
      (''duplicateCandidateCount'', Digits),
      (''duplicateCandidatePercent'', Digits),
      (''uniqueFilesSizeMB'', Digits_or_dot),
      (''duplicateCandidatesSizeMB'', Digits_or_dot),
      (''totalSizeMB'', Digits_or_dot),
      (''totalDirectoryCount'', Digits),
      (''maxDirectoryDepth'', Digits),
      (''avgDirectoryDepth'', Digits_or_dot),
      (''uniqueFilesTotal'', Digits)]"

definition float_fields_improved :: "string list" where
  "float_fields_improved =
     [''uniqueFilesSizeMB'', ''duplicateCandidatesSizeMB'', ''totalSizeMB'', ''avgDirectoryDepth'']"

definition typed_default :: "string \<Rightarrow> pyval" where
  \<comment> \<open>\<open>0 if field not in [...] else 0.0\<close>\<close>
  "typed_default field = (if field \<notin> set float_fields_improved then PInt 0 else PFloat 0)"

definition improved_row :: "nat \<Rightarrow> string \<Rightarrow> py_error + row" where
  "improved_row run_no m =
     (case extract_fields typed_default float_fields_improved field_patterns_improved m [] of
        Inl e \<Rightarrow> Inl e
      | Inr data \<Rightarrow>
         (case index_all data row_columns of
            Inl e \<Rightarrow> Inl e
          | Inr r \<Rightarrow> Inr ((''TestRun#'', PInt (int run_no)) # r)))"

fun improved_rows :: "nat \<Rightarrow> string list \<Rightarrow> py_error + row list" where
  "improved_rows run_no [] = Inr []"
| "improved_rows run_no (m # ms) =
     (case improved_row run_no m of
        Inl e \<Rightarrow> Inl e
      | Inr r \<Rightarrow> (case improved_rows (run_no + 1) ms of Inl e \<Rightarrow> Inl e | Inr rs \<Rightarrow> Inr (r # rs)))"

definition extract_complete_folder_data :: "string \<Rightarrow> py_error + row list" where
  "extract_complete_folder_data content = improved_rows 1 (findall improved_pattern content)"

subsection \<open>\<open>docs/speed_tests/parse_console_log.py\<close>: \<open>parse_folder_analysis_data\<close>\<close>









subsection \<open>Malformed blobs and the numbering of the records\<close>

definition malformed_blob :: "string \<Rightarrow> bool" where
  \<comment> \<open>the body of the \<open>try\<close> of \<open>parse_folder_analysis_data\<close> raises on this match\<close>
  "malformed_blob m = isl (folder_row 0 m)"

definition malformed_json :: "(string \<Rightarrow> py_error + pyval) \<Rightarrow> string \<Rightarrow> bool" where
  \<comment> \<open>\<open>json.loads\<close> raises on this match, or what it returns is no dictionary\<close>
  "malformed_json loads m = (case loads m of Inl e \<Rightarrow> True | Inr data \<Rightarrow> isl (json_row 0 data))"

definition is_warning :: "message \<Rightarrow> bool" where
  "is_warning msg =
     (case msg of
        Warning_failed_to_parse m e \<Rightarrow> True
      | Warning_json m e \<Rightarrow> True
      | Warning_error_processing e \<Rightarrow> True
      | _ \<Rightarrow> False)"

fun number_rows :: "(nat \<Rightarrow> 'm \<Rightarrow> row) \<Rightarrow> ('m \<Rightarrow> bool) \<Rightarrow> nat \<Rightarrow> 'm list \<Rightarrow> row list" where
  \<comment> \<open>the records of the matches that are not skipped, numbered from \<open>n\<close> in their order\<close>
  "number_rows mk skip n [] = []"
| "number_rows mk skip n (m # ms) =
     (if skip m then number_rows mk skip n ms else mk n m # number_rows mk skip (Suc n) ms)"

definition the_row :: "py_error + row \<Rightarrow> row" where
  "the_row r = (case r of Inl e \<Rightarrow> [] | Inr x \<Rightarrow> x)"

definition json_try :: "(string \<Rightarrow> py_error + pyval) \<Rightarrow> nat \<Rightarrow> string \<Rightarrow> py_error + row" where
  "json_try loads run_no m = (case loads m of Inl e \<Rightarrow> Inl e | Inr data \<Rightarrow> json_row run_no data)"

definition warned_json :: "(string \<Rightarrow> py_error + pyval) \<Rightarrow> string \<Rightarrow> bool" where
  \<comment> \<open>the matches for which \<open>parse_json_folder_analysis_data\<close> prints a warning: the malformed
      ones, and those whose \<open>totalSizeMB\<close> cannot be shown with one decimal\<close>
  "warned_json loads m =
     (case loads m of
        Inl e \<Rightarrow> True
      | Inr data \<Rightarrow>
         (case data of
            PDict d \<Rightarrow> format_1f (dict_get d ''totalSizeMB'' (PInt 0)) \<noteq> None
          | _ \<Rightarrow> True))"

definition is_float_value :: "pyval \<Rightarrow> bool" where
  "is_float_value v = (case v of PFloat x \<Rightarrow> True | _ \<Rightarrow> False)"

definition is_int_value :: "pyval \<Rightarrow> bool" where
  "is_int_value v = (case v of PInt i \<Rightarrow> True | _ \<Rightarrow> False)"

definition typed_by_name :: "string \<Rightarrow> pyval \<Rightarrow> bool" where
  \<comment> \<open>the type a field name declares\<close>
  "typed_by_name field v =
     (if field \<in> set float_fields_improved then is_float_value v else is_int_value v)"


subsection \<open>Example logs\<close>

definition example_modal_log :: string where
  \<comment> \<open>three markers; the second blob has a size with two dots\<close>
  "example_modal_log =
     microscope @ '' FOLDER_ANALYSIS_DATA (Modal Predictors): {timestamp: 17, totalFiles: 3} ''
     @ microscope @ '' FOLDER_ANALYSIS_DATA (Modal Predictors): {totalFiles: 4, totalSizeMB: 1.2.3} ''
     @ microscope @ '' FOLDER_ANALYSIS_DATA (Modal Predictors): {totalFiles: 5}''"

definition example_json_log :: string where
  \<comment> \<open>three markers; the second blob is cut short\<close>
  \<open>example_json_log =
     microscope @ '' FOLDER_ANALYSIS_DATA: {"totalFiles": 3} ''
     @ microscope @ '' FOLDER_ANALYSIS_DATA: {"totalFiles": } ''
     @ microscope @ '' FOLDER_ANALYSIS_DATA: {"totalFiles": 5}''\<close>

definition example_log :: string where
  "example_log = example_modal_log @ '' '' @ example_json_log"

definition example_loads :: "string \<Rightarrow> py_error + pyval" where
  \<comment> \<open>what \<open>json.loads\<close> returns on the blobs of the example\<close>
  \<open>example_loads s =
     (if s = ''{"totalFiles": 3}'' then Inr (PDict [(''totalFiles'', PInt 3)])
      else if s = ''{"totalFiles": 5}'' then Inr (PDict [(''totalFiles'', PInt 5)])
      else Inl JSONDecodeError)\<close>

section \<open>The tabular writer\<close>

text \<open>
  \<open>csv.DictWriter\<close> with its defaults (\<open>restval=''\<close>, \<open>extrasaction='raise'\<close>), modelled
  up to the cells it hands to \<open>csv.writer\<close>, one list for each line; how a cell is turned
  into text (\<open>str\<close>, quoting, \<open>None\<close> as the empty string) is the library's and is left
  out. \<open>writerows\<close> turns the records into lines one by one, so the lines before a record
  that raises are written. A file that cannot be opened is the environment's affair and is
  modelled with \<open>main\<close>.
\<close>

definition wrong_fields :: "string list \<Rightarrow> row \<Rightarrow> string list" where
  \<comment> \<open>\<open>rowdict.keys() - self.fieldnames\<close>\<close>
  "wrong_fields fieldnames rowdict = filter (\<lambda>k. k \<notin> set fieldnames) (map fst rowdict)"

definition dict_to_list :: "string list \<Rightarrow> row \<Rightarrow> py_error + pyval list" where
  "dict_to_list fieldnames rowdict =
     (if wrong_fields fieldnames rowdict \<noteq> [] then Inl ValueError
      else Inr (map (\<lambda>key. dict_get rowdict key (PStr [])) fieldnames))"

fun writerows :: "string list \<Rightarrow> row list \<Rightarrow> pyval list list \<times> py_error option" where
  "writerows fieldnames [] = ([], None)"
| "writerows fieldnames (rowdict # rowdicts) =
     (case dict_to_list fieldnames rowdict of
        Inl e \<Rightarrow> ([], Some e)
      | Inr line \<Rightarrow> (case writerows fieldnames rowdicts of (ls, e) \<Rightarrow> (line # ls, e)))"

definition write_csv :: "row list \<Rightarrow> string list \<Rightarrow> pyval list list \<times> py_error option" where
  \<comment> \<open>the lines written to the file, and the exception that ends the call, if any\<close>
  "write_csv data fieldnames =
     (case writerows fieldnames data of (ls, e) \<Rightarrow> (map PStr fieldnames # ls, e))"

subsection \<open>\<open>docs/speed_tests/trial5_parser.py\<close>: \<open>save_results\<close>\<close>




section \<open>The scripts as processes\<close>

text \<open>
  What a \<open>main\<close> asks of its surroundings: whether a path exists, the text of a file or
  the exception of opening and decoding it, whether a file can be opened for writing, and
  the two operations of \<open>pathlib\<close> it uses. A process ends with code 1 on \<open>sys.exit(1)\<close> and
  on an exception nobody catches, with 0 when \<open>main\<close> returns. The lines printed are left
  out.
\<close>

record environment =
  path_exists :: "string \<Rightarrow> bool"
  read_text :: "string \<Rightarrow> py_error + string"
  can_write :: "string \<Rightarrow> bool"
  path_stem :: "string \<Rightarrow> string"
  path_in_parent :: "string \<Rightarrow> string \<Rightarrow> string"

record process_result =
  exit_code :: nat
  written :: "(string \<times> pyval list list) list"

definition extract_filename_prefix :: "environment \<Rightarrow> string \<Rightarrow> string" where
  \<comment> \<open>\<open>input_path.stem.split('_')[0]\<close>\<close>
  "extract_filename_prefix env input_path = takeWhile (\<lambda>c. c \<noteq> CHR ''_'') (path_stem env input_path)"

definition folder_fieldnames :: "string list" where
  "folder_fieldnames =
     [''TestRun#'', ''timestamp'', ''totalFiles'', ''duplicateCandidateCount'',
      ''duplicateCandidatePercent'', ''uniqueFilesSizeMB'', ''duplicateCandidatesSizeMB'',
      ''totalSizeMB'', ''totalDirectoryCount'', ''maxDirectoryDepth'', ''uniqueFilesTotal'',
      ''avgDirectoryDepth'']"

definition timing_fieldnames :: "string list" where
  "timing_fieldnames =
     [''Test Run #'', ''isWorkerMode'', ''totalDurationMs'',
      ''phase1FileAnalysisMs'', ''phase2HashProcessingMs'', ''phase3UIRenderingMs'',
      ''PROCESSING_START'', ''DEDUPLICATION_START'', ''UI_UPDATE_START'', ''ALL_FILES_DISPLAYED'']"

definition write_file :: "environment \<Rightarrow> string \<Rightarrow> row list \<Rightarrow> string list
    \<Rightarrow> (string \<times> pyval list list) list \<times> py_error option" where
  \<comment> \<open>\<open>write_csv\<close> on a path: the file written, if it could be opened, and the exception\<close>
  "write_file env output_path data fieldnames =
     (if \<not> can_write env output_path then ([], Some OSError)
      else case write_csv data fieldnames of (ls, e) \<Rightarrow> ([(output_path, ls)], e))"

definition main :: "string list \<Rightarrow> environment \<Rightarrow> process_result" where
  \<comment> \<open>\<open>docs/plans/Bookkeeper/speed_tests/parse_console_log.py\<close>; \<open>argv\<close> is \<open>sys.argv\<close>\<close>
  "main argv env =
     (if length argv \<noteq> 2 then \<lparr>exit_code = 1, written = []\<rparr>
      else
        let input_path = argv ! 1 in
        if \<not> path_exists env input_path then \<lparr>exit_code = 1, written = []\<rparr>
        else
          let prefix = extract_filename_prefix env input_path;
              folder_analysis_file = path_in_parent env input_path (prefix @ ''_FolderAnalysisData.csv'');
              test_speed_file = path_in_parent env input_path (prefix @ ''_TestSpeedData.csv'')
          in case read_text env input_path of
               Inl e \<Rightarrow> \<lparr>exit_code = 1, written = []\<rparr>
             | Inr content \<Rightarrow>
                (let folder_rows = fst (parse_folder_analysis_data content);
                     timing_data = parse_timing_data content;
                     (files1, e1) =
                       (if folder_rows \<noteq> []
                        then write_file env folder_analysis_file folder_rows folder_fieldnames
                        else ([], None))
                 in if e1 \<noteq> None then \<lparr>exit_code = 1, written = files1\<rparr>
                    else
                      let (files2, e2) =
                            (if timing_data \<noteq> []
                             then write_file env test_speed_file timing_data timing_fieldnames
                             else ([], None))
                      in if e2 \<noteq> None then \<lparr>exit_code = 1, written = files1 @ files2\<rparr>
                         else \<lparr>exit_code = 0, written = files1 @ files2\<rparr>))"



section \<open>The phase calculation\<close>

lemma timing_row_phases:
  "map_of (timing_row k w data) ''phase1FileAnalysisMs'' =
     Some (opt_int (map_option (\<lambda>d. d - dict_get data ''PROCESSING_START'' 0)
                      (map_of data ''DEDUPLICATION_START'')))"
  "map_of (timing_row k w data) ''totalDurationMs'' =
     Some (opt_int (map_option (\<lambda>a. a - dict_get data ''PROCESSING_START'' 0)
                      (map_of data ''ALL_FILES_DISPLAYED'')))"
  "map_of (timing_row k w data) ''phase2HashProcessingMs'' =
     Some (opt_int (case (map_of data ''UI_UPDATE_START'', map_of data ''DEDUPLICATION_START'') of
                      (Some u, Some d) \<Rightarrow> Some (u - d) | _ \<Rightarrow> None))"
  "map_of (timing_row k w data) ''phase3UIRenderingMs'' =
     Some (opt_int (case (map_of data ''ALL_FILES_DISPLAYED'', map_of data ''UI_UPDATE_START'') of
                      (Some a, Some u) \<Rightarrow> Some (a - u) | _ \<Rightarrow> None))"
  by (simp_all add: timing_row_def Let_def split: option.split)

lemma timing_row_trial5_phases:
  "map_of (timing_row_trial5 k data) ''phase1FileAnalysisMs'' =
     Some (if dict_get data ''PROCESSING_START'' 0 \<le> dict_get data ''DEDUPLICATION_START'' 0
           then PInt (dict_get data ''DEDUPLICATION_START'' 0 - dict_get data ''PROCESSING_START'' 0)
           else PNone)"
  "map_of (timing_row_trial5 k data) ''totalDurationMs'' =
     Some (if dict_get data ''PROCESSING_START'' 0 \<le> dict_get data ''ALL_FILES_DISPLAYED'' 0
           then PInt (dict_get data ''ALL_FILES_DISPLAYED'' 0 - dict_get data ''PROCESSING_START'' 0)
           else PNone)"
  "map_of (timing_row_trial5 k data) ''phase2HashProcessingMs'' =
     Some (if dict_get data ''DEDUPLICATION_START'' 0 \<le> dict_get data ''UI_UPDATE_START'' 0
           then PInt (dict_get data ''UI_UPDATE_START'' 0 - dict_get data ''DEDUPLICATION_START'' 0)
           else PNone)"
  "map_of (timing_row_trial5 k data) ''phase3UIRenderingMs'' =
     Some (if dict_get data ''UI_UPDATE_START'' 0 \<le> dict_get data ''ALL_FILES_DISPLAYED'' 0
           then PInt (dict_get data ''ALL_FILES_DISPLAYED'' 0 - dict_get data ''UI_UPDATE_START'' 0)
           else PNone)"
  by (simp_all add: timing_row_trial5_def Let_def opt_int_def)

lemma phase_cases:
  assumes "(ph, e, s) \<in> set phase_definitions"
  obtains "ph = ''phase1FileAnalysisMs''" "e = ''DEDUPLICATION_START''" "s = ''PROCESSING_START''"
    | "ph = ''phase2HashProcessingMs''" "e = ''UI_UPDATE_START''" "s = ''DEDUPLICATION_START''"
    | "ph = ''phase3UIRenderingMs''" "e = ''ALL_FILES_DISPLAYED''" "s = ''UI_UPDATE_START''"
    | "ph = ''totalDurationMs''" "e = ''ALL_FILES_DISPLAYED''" "s = ''PROCESSING_START''"
proof -
  from assms have
    "(ph, e, s) = (''phase1FileAnalysisMs'', ''DEDUPLICATION_START'', ''PROCESSING_START'')
     \<or> (ph, e, s) = (''phase2HashProcessingMs'', ''UI_UPDATE_START'', ''DEDUPLICATION_START'')
     \<or> (ph, e, s) = (''phase3UIRenderingMs'', ''ALL_FILES_DISPLAYED'', ''UI_UPDATE_START'')
     \<or> (ph, e, s) = (''totalDurationMs'', ''ALL_FILES_DISPLAYED'', ''PROCESSING_START'')"
    unfolding phase_definitions_def by (simp only: set_simps insert_iff empty_iff simp_thms)
  then show thesis using that by (elim disjE) (simp_all only: prod.inject)
qed

text \<open>
  Claim C1, as the code has it. In \<open>parse_console_log.py\<close>, for a run's timestamp map that
  holds \<open>PROCESSING_START\<close> (the extractor stores it in every run it opens), each phase is
  the end-named timestamp minus the start-named one when both are in the map and \<open>None\<close>
  when either is absent. In \<open>trial5_parser.py\<close> an absent timestamp is read as 0, and the
  phase is the difference of the two readings when the end reading is not smaller than the
  start reading and \<open>None\<close> otherwise.
\<close>

theorem phase_duration_derivation:
  assumes "(ph, e, s) \<in> set phase_definitions"
    and "map_of data ''PROCESSING_START'' = Some p"
  shows "map_of (timing_row k w data) ph =
           Some (case (map_of data e, map_of data s) of
                   (Some ev, Some sv) \<Rightarrow> PInt (ev - sv) | _ \<Rightarrow> PNone)
       \<and> map_of (timing_row_trial5 k data) ph =
           Some (if dict_get data s 0 \<le> dict_get data e 0
                 then PInt (dict_get data e 0 - dict_get data s 0) else PNone)"
  using assms(1)
proof (cases rule: phase_cases)
  case 1
  show ?thesis using assms(2) unfolding 1
    by (simp add: timing_row_phases timing_row_trial5_phases opt_int_def dict_get_def
          split: option.split)
next
  case 2
  show ?thesis unfolding 2
    by (simp add: timing_row_phases timing_row_trial5_phases opt_int_def split: option.split)
next
  case 3
  show ?thesis unfolding 3
    by (simp add: timing_row_phases timing_row_trial5_phases opt_int_def split: option.split)
next
  case 4
  show ?thesis using assms(2) unfolding 4
    by (simp add: timing_row_phases timing_row_trial5_phases opt_int_def dict_get_def
          split: option.split)
qed

theorem phase_duration_derivation_witness:
  "(''phase2HashProcessingMs'', ''UI_UPDATE_START'', ''DEDUPLICATION_START'') \<in> set phase_definitions
   \<and> map_of [(''PROCESSING_START'', 100), (''DEDUPLICATION_START'', 250::int)] ''PROCESSING_START''
       = Some 100
   \<and> map_of (timing_row 1 False [(''PROCESSING_START'', 100), (''DEDUPLICATION_START'', 250)])
        ''phase2HashProcessingMs'' = Some PNone
   \<and> map_of (timing_row_trial5 1 [(''PROCESSING_START'', 100), (''DEDUPLICATION_START'', 250)])
        ''phase2HashProcessingMs'' = Some PNone"
proof -
  have m: "(''phase2HashProcessingMs'', ''UI_UPDATE_START'', ''DEDUPLICATION_START'')
             \<in> set phase_definitions"
    by (simp add: phase_definitions_def)
  have p: "map_of [(''PROCESSING_START'', 100), (''DEDUPLICATION_START'', 250::int)]
             ''PROCESSING_START'' = Some 100"
    by simp
  show ?thesis
    using phase_duration_derivation [OF m p, of 1 False] m p
    by (simp add: dict_get_def)
qed

text \<open>
  Claim C1 as stated fails on \<open>trial5_parser.py\<close>: the text holds one boundary marker
  and nothing else, so the run's map holds \<open>PROCESSING_START\<close> only; the two phases between
  absent timestamps come out as 0, not as \<open>None\<close>.
\<close>

theorem absent_timestamp_read_as_zero:
  "fst (group_timing_trial5 (findall main_pattern ''processingTimer.js:1 PROCESSING_START: 100''))
     = [(1, [(''PROCESSING_START'', 100)])]
   \<and> processed_timing_trial5 ''processingTimer.js:1 PROCESSING_START: 100''
     = [[(''TestRun'', PInt 1), (''totalDurationMs'', PNone), (''phase1FileAnalysisMs'', PNone),
         (''phase2HashProcessingMs'', PInt 0), (''phase3UIRenderingMs'', PInt 0),
         (''PROCESSING_START'', PInt 100), (''DEDUPLICATION_START'', PInt 0),
         (''UI_UPDATE_START'', PInt 0), (''ALL_FILES_DISPLAYED'', PInt 0)]]"
  by code_simp

text \<open>
  Claim C7, as the code has it. With both named timestamps of a phase in the map and the end
  smaller than the start, \<open>parse_console_log.py\<close> yields the negative difference and no
  error; \<open>trial5_parser.py\<close> compares the two first and yields \<open>None\<close>.
\<close>

theorem negative_durations:
  assumes "(ph, e, s) \<in> set phase_definitions"
    and "map_of data e = Some ev" and "map_of data s = Some sv" and "ev < sv"
  shows "map_of (timing_row k w data) ph = Some (PInt (ev - sv)) \<and> ev - sv < 0
       \<and> map_of (timing_row_trial5 k data) ph = Some PNone"
  using assms(1)
proof (cases rule: phase_cases)
  case 1
  show ?thesis using assms(2-4) unfolding 1
    by (simp add: timing_row_phases timing_row_trial5_phases opt_int_def dict_get_def)
next
  case 2
  show ?thesis using assms(2-4) unfolding 2
    by (simp add: timing_row_phases timing_row_trial5_phases opt_int_def dict_get_def)
next
  case 3
  show ?thesis using assms(2-4) unfolding 3
    by (simp add: timing_row_phases timing_row_trial5_phases opt_int_def dict_get_def)
next
  case 4
  show ?thesis using assms(2-4) unfolding 4
    by (simp add: timing_row_phases timing_row_trial5_phases opt_int_def dict_get_def)
qed

theorem negative_durations_witness:
  "(''phase1FileAnalysisMs'', ''DEDUPLICATION_START'', ''PROCESSING_START'') \<in> set phase_definitions
   \<and> map_of [(''PROCESSING_START'', 100), (''DEDUPLICATION_START'', 50::int)] ''DEDUPLICATION_START''
       = Some 50
   \<and> map_of [(''PROCESSING_START'', 100), (''DEDUPLICATION_START'', 50::int)] ''PROCESSING_START''
       = Some 100
   \<and> (50::int) < 100
   \<and> map_of (timing_row 1 False [(''PROCESSING_START'', 100), (''DEDUPLICATION_START'', 50)])
        ''phase1FileAnalysisMs'' = Some (PInt (- 50))
   \<and> map_of (timing_row_trial5 1 [(''PROCESSING_START'', 100), (''DEDUPLICATION_START'', 50)])
        ''phase1FileAnalysisMs'' = Some PNone"
proof -
  have m: "(''phase1FileAnalysisMs'', ''DEDUPLICATION_START'', ''PROCESSING_START'')
             \<in> set phase_definitions"
    by (simp add: phase_definitions_def)
  have e: "map_of [(''PROCESSING_START'', 100), (''DEDUPLICATION_START'', 50::int)]
             ''DEDUPLICATION_START'' = Some 50"
    by simp
  have s: "map_of [(''PROCESSING_START'', 100), (''DEDUPLICATION_START'', 50::int)]
             ''PROCESSING_START'' = Some 100"
    by simp
  have l: "(50::int) < 100" by simp
  show ?thesis
    using negative_durations [OF m e s l, of 1 False] m e s
    by simp
qed

text \<open>
  Claim C7 as stated fails on \<open>trial5_parser.py\<close>: both timestamps of the first phase are
  in the run, the end is the smaller one, and the phase is \<open>None\<close>, not \<open>-50\<close>.
\<close>

theorem trial5_rejects_decreasing_timestamps:
  "fst (group_timing_trial5 (findall main_pattern
     ''processingTimer.js:1 PROCESSING_START: 100 processingTimer.js:2 DEDUPLICATION_START: 50''))
     = [(1, [(''PROCESSING_START'', 100), (''DEDUPLICATION_START'', 50)])]
   \<and> processed_timing_trial5
     ''processingTimer.js:1 PROCESSING_START: 100 processingTimer.js:2 DEDUPLICATION_START: 50''
     = [[(''TestRun'', PInt 1), (''totalDurationMs'', PNone), (''phase1FileAnalysisMs'', PNone),
         (''phase2HashProcessingMs'', PNone), (''phase3UIRenderingMs'', PInt 0),
         (''PROCESSING_START'', PInt 100), (''DEDUPLICATION_START'', PInt 50),
         (''UI_UPDATE_START'', PInt 0), (''ALL_FILES_DISPLAYED'', PInt 0)]]"
  by code_simp

section \<open>Grouping timing events into runs\<close>

lemma dict_get_store_event:
  "dict_get (store_event trd r n t) k [] =
     (if k = r then AList.update n t (dict_get trd r []) else dict_get trd k [])"
  by (simp add: store_event_def dict_get_def update_conv')

lemma keys_store_event:
  "map fst (store_event trd r n t) = (if r \<in> set (map fst trd) then map fst trd else map fst trd @ [r])"
  by (simp add: store_event_def update_keys)

lemma timing_step_start:
  "current_test_run (timing_step st (pos, ''PROCESSING_START'', t, src)) = current_test_run st + 1"
  "test_run_data (timing_step st (pos, ''PROCESSING_START'', t, src)) =
     store_event (test_run_data st) (current_test_run st + 1) ''PROCESSING_START'' t"
  by (simp_all add: timing_step_def Let_def)

lemma timing_step_other:
  assumes "n \<noteq> ''PROCESSING_START''"
  shows "current_test_run (timing_step st (pos, n, t, src)) = current_test_run st"
    and "test_run_data (timing_step st (pos, n, t, src)) =
           (if 0 < current_test_run st
            then store_event (test_run_data st) (current_test_run st) n t
            else test_run_data st)"
  using assms by (simp_all add: timing_step_def Let_def)

lemma starts_Cons:
  "starts ((pos, n, t, src) # evs) = (if n = ''PROCESSING_START'' then Suc (starts evs) else starts evs)"
  by (simp add: starts_def event_name_def)

lemma current_foldl:
  "current_test_run (foldl timing_step st evs) = current_test_run st + starts evs"
proof (induction evs arbitrary: st)
  case Nil
  show ?case by (simp add: starts_def)
next
  case (Cons ev evs)
  obtain pos n t src where ev: "ev = (pos, n, t, src)" by (cases ev) auto
  show ?case
  proof (cases "n = ''PROCESSING_START''")
    case True
    show ?thesis using Cons [of "timing_step st ev"] unfolding ev True
      by (simp add: timing_step_start starts_Cons)
  next
    case False
    then show ?thesis using Cons [of "timing_step st ev"] unfolding ev
      by (simp add: timing_step_other starts_Cons)
  qed
qed


lemma keys_foldl:
  assumes "map fst (test_run_data st) = [1..<Suc (current_test_run st)]"
  shows "map fst (test_run_data (foldl timing_step st evs)) =
           [1..<Suc (current_test_run st + starts evs)]"
  using assms
proof (induction evs arbitrary: st)
  case Nil
  then show ?case by (simp add: starts_def)
next
  case (Cons ev evs)
  obtain pos n t src where ev: "ev = (pos, n, t, src)" by (cases ev) auto
  show ?case
  proof (cases "n = ''PROCESSING_START''")
    case True
    have "map fst (test_run_data (timing_step st ev)) = [1..<Suc (current_test_run (timing_step st ev))]"
      unfolding ev True using Cons.prems by (simp add: timing_step_start keys_store_event)
    from Cons.IH [OF this] show ?thesis unfolding ev True
      by (simp add: timing_step_start starts_Cons)
  next
    case False
    have "map fst (test_run_data (timing_step st ev)) = [1..<Suc (current_test_run (timing_step st ev))]"
      unfolding ev using Cons.prems False by (simp add: timing_step_other keys_store_event)
    from Cons.IH [OF this] show ?thesis unfolding ev using False
      by (simp add: timing_step_other starts_Cons)
  qed
qed

lemma run_unchanged_later:
  assumes "k < current_test_run st"
  shows "dict_get (test_run_data (foldl timing_step st evs)) k [] = dict_get (test_run_data st) k []"
  using assms
proof (induction evs arbitrary: st)
  case Nil
  show ?case by simp
next
  case (Cons ev evs)
  obtain pos n t src where ev: "ev = (pos, n, t, src)" by (cases ev) auto
  show ?case
  proof (cases "n = ''PROCESSING_START''")
    case True
    have "k < current_test_run (timing_step st ev)"
      unfolding ev True using Cons.prems by (simp add: timing_step_start)
    from Cons.IH [OF this] show ?thesis unfolding ev True using Cons.prems
      by (simp add: timing_step_start dict_get_store_event)
  next
    case False
    have "k < current_test_run (timing_step st ev)"
      unfolding ev using Cons.prems False by (simp add: timing_step_other)
    from Cons.IH [OF this] show ?thesis unfolding ev using Cons.prems False
      by (simp add: timing_step_other dict_get_store_event)
  qed
qed

lemma run_unchanged_quiet:
  assumes "\<forall>ev\<in>set evs. event_name ev \<noteq> ''PROCESSING_START'' \<and> event_name ev \<noteq> name"
  shows "map_of (dict_get (test_run_data (foldl timing_step st evs)) k []) name
           = map_of (dict_get (test_run_data st) k []) name"
  using assms
proof (induction evs arbitrary: st)
  case Nil
  show ?case by simp
next
  case (Cons ev evs)
  obtain pos n t src where ev: "ev = (pos, n, t, src)" by (cases ev) auto
  from Cons.prems have n: "n \<noteq> ''PROCESSING_START''" "n \<noteq> name"
    unfolding ev by (simp_all add: event_name_def)
  from Cons.prems have "\<forall>ev\<in>set evs. event_name ev \<noteq> ''PROCESSING_START'' \<and> event_name ev \<noteq> name"
    by simp
  from Cons.IH [OF this] show ?case unfolding ev using n
    by (simp add: timing_step_other dict_get_store_event update_conv')
qed

lemma starts_quiet:
  assumes "\<forall>ev\<in>set evs. event_name ev \<noteq> ''PROCESSING_START''"
  shows "starts evs = 0"
  using assms by (simp add: starts_def)

lemma starts_append: "starts (xs @ ys) = starts xs + starts ys"
  by (simp add: starts_def)


lemma run_closed_by_marker:
  assumes "es3 = [] \<or> event_name (hd es3) = ''PROCESSING_START''"
  shows "dict_get (test_run_data (foldl timing_step st es3)) (current_test_run st) []
           = dict_get (test_run_data st) (current_test_run st) []"
proof (cases es3)
  case Nil
  then show ?thesis by simp
next
  case (Cons ev evs)
  obtain pos n t src where ev: "ev = (pos, n, t, src)" by (cases ev) auto
  from assms Cons have n: "n = ''PROCESSING_START''" unfolding ev by (simp add: event_name_def)
  have "current_test_run st < current_test_run (timing_step st ev)"
    unfolding ev n by (simp add: timing_step_start)
  from run_unchanged_later [OF this, of evs] show ?thesis unfolding Cons ev n
    by (simp add: timing_step_start dict_get_store_event)
qed

lemma timing_step_stores:
  assumes "0 < current_test_run (timing_step st (pos, name, v, src))"
  shows "map_of (dict_get (test_run_data (timing_step st (pos, name, v, src)))
            (current_test_run (timing_step st (pos, name, v, src))) []) name = Some v"
proof (cases "name = ''PROCESSING_START''")
  case True
  show ?thesis unfolding True by (simp add: timing_step_start dict_get_store_event update_conv')
next
  case False
  with assms show ?thesis by (simp add: timing_step_other dict_get_store_event update_conv')
qed

lemma last_write_wins_plans:
  assumes quiet: "\<forall>ev\<in>set es2. event_name ev \<noteq> ''PROCESSING_START'' \<and> event_name ev \<noteq> name"
    and closed: "es3 = [] \<or> event_name (hd es3) = ''PROCESSING_START''"
    and inside: "0 < starts (es1 @ [(pos, name, v, src)])"
  shows "map_of (dict_get (test_run_data (group_timing (es1 @ [(pos, name, v, src)] @ es2 @ es3)))
            (starts (es1 @ [(pos, name, v, src)])) []) name = Some v"
proof -
  define st1 where "st1 = timing_step (foldl timing_step timing_init es1) (pos, name, v, src)"
  define st2 where "st2 = foldl timing_step st1 es2"
  have cur1: "current_test_run st1 = starts (es1 @ [(pos, name, v, src)])"
    using current_foldl [of timing_init "es1 @ [(pos, name, v, src)]"]
    by (simp add: st1_def timing_init_def)
  have "starts es2 = 0" using quiet by (simp add: starts_quiet)
  then have cur2: "current_test_run st2 = current_test_run st1"
    by (simp add: st2_def current_foldl)
  have "map_of (dict_get (test_run_data st1) (current_test_run st1) []) name = Some v"
    unfolding st1_def using inside cur1 [unfolded st1_def]
    by (intro timing_step_stores) simp
  then have "map_of (dict_get (test_run_data st2) (current_test_run st1) []) name = Some v"
    unfolding st2_def by (simp add: run_unchanged_quiet [OF quiet])
  then have "map_of (dict_get (test_run_data st2) (current_test_run st2) []) name = Some v"
    by (simp add: cur2)
  then have "map_of (dict_get (test_run_data (foldl timing_step st2 es3)) (current_test_run st2) []) name
               = Some v"
    by (simp add: run_closed_by_marker [OF closed])
  moreover have "group_timing (es1 @ [(pos, name, v, src)] @ es2 @ es3) = foldl timing_step st2 es3"
    by (simp add: group_timing_def st2_def st1_def)
  ultimately show ?thesis by (simp add: cur2 cur1)
qed


lemma step_speed_tests_start:
  "timing_step_speed_tests (trd, c) (''PROCESSING_START'', t) =
     (store_event trd (c + 1) ''PROCESSING_START'' (py_int t), c + 1)"
  by (simp add: timing_step_speed_tests_def Let_def)

lemma step_speed_tests_other:
  "n \<noteq> ''PROCESSING_START'' \<Longrightarrow>
   timing_step_speed_tests (trd, c) (n, t) = (store_event trd c n (py_int t), c)"
  by (simp add: timing_step_speed_tests_def Let_def)

lemma starts_speed_tests_Cons:
  "starts_speed_tests ((n, t) # ms) =
     (if n = ''PROCESSING_START'' then Suc (starts_speed_tests ms) else starts_speed_tests ms)"
  by (simp add: starts_speed_tests_def)

lemma current_foldl_speed_tests:
  "snd (foldl timing_step_speed_tests (trd, c) ms) = c + starts_speed_tests ms"
proof (induction ms arbitrary: trd c)
  case Nil
  show ?case by (simp add: starts_speed_tests_def)
next
  case (Cons m ms)
  obtain n t where m: "m = (n, t)" by (cases m)
  show ?case
  proof (cases "n = ''PROCESSING_START''")
    case True
    show ?thesis unfolding m True
      by (simp add: step_speed_tests_start starts_speed_tests_Cons Cons.IH)
  next
    case False
    then show ?thesis unfolding m
      by (simp add: step_speed_tests_other starts_speed_tests_Cons Cons.IH)
  qed
qed

lemma run_unchanged_later_speed_tests:
  assumes "k < c"
  shows "dict_get (fst (foldl timing_step_speed_tests (trd, c) ms)) k [] = dict_get trd k []"
  using assms
proof (induction ms arbitrary: trd c)
  case Nil
  show ?case by simp
next
  case (Cons m ms)
  obtain n t where m: "m = (n, t)" by (cases m)
  show ?case
  proof (cases "n = ''PROCESSING_START''")
    case True
    from Cons.prems have "k < c + 1" by simp
    from Cons.IH [OF this] show ?thesis unfolding m True using Cons.prems
      by (simp add: step_speed_tests_start dict_get_store_event)
  next
    case False
    from Cons.IH [OF Cons.prems] show ?thesis unfolding m using False Cons.prems
      by (simp add: step_speed_tests_other dict_get_store_event)
  qed
qed

lemma run_unchanged_quiet_speed_tests:
  assumes "\<forall>m\<in>set ms. fst m \<noteq> ''PROCESSING_START'' \<and> fst m \<noteq> name"
  shows "map_of (dict_get (fst (foldl timing_step_speed_tests (trd, c) ms)) k []) name
           = map_of (dict_get trd k []) name
       \<and> snd (foldl timing_step_speed_tests (trd, c) ms) = c"
  using assms
proof (induction ms arbitrary: trd c)
  case Nil
  show ?case by simp
next
  case (Cons m ms)
  obtain n t where m: "m = (n, t)" by (cases m)
  from Cons.prems have n: "n \<noteq> ''PROCESSING_START''" "n \<noteq> name"
    unfolding m by simp_all
  from Cons.prems have "\<forall>m\<in>set ms. fst m \<noteq> ''PROCESSING_START'' \<and> fst m \<noteq> name"
    by simp
  from Cons.IH [OF this] show ?case unfolding m using n
    by (simp add: step_speed_tests_other dict_get_store_event update_conv')
qed

lemma run_closed_by_marker_speed_tests:
  assumes "ms3 = [] \<or> fst (hd ms3) = ''PROCESSING_START''"
  shows "dict_get (fst (foldl timing_step_speed_tests (trd, c) ms3)) c [] = dict_get trd c []"
proof (cases ms3)
  case Nil
  then show ?thesis by simp
next
  case (Cons m ms)
  obtain n t where m: "m = (n, t)" by (cases m)
  from assms Cons have n: "n = ''PROCESSING_START''" unfolding m by simp
  have "c < c + 1" by simp
  from run_unchanged_later_speed_tests [OF this, of _ ms] show ?thesis unfolding Cons m n
    by (simp add: step_speed_tests_start dict_get_store_event)
qed

lemma step_speed_tests_stores:
  "map_of (dict_get (fst (timing_step_speed_tests (trd, c) (name, t)))
            (snd (timing_step_speed_tests (trd, c) (name, t))) []) name = Some (py_int t)"
proof (cases "name = ''PROCESSING_START''")
  case True
  show ?thesis unfolding True by (simp add: step_speed_tests_start dict_get_store_event update_conv')
next
  case False
  then show ?thesis by (simp add: step_speed_tests_other dict_get_store_event update_conv')
qed

lemma last_write_wins_speed_tests:
  assumes quiet: "\<forall>m\<in>set ms2. fst m \<noteq> ''PROCESSING_START'' \<and> fst m \<noteq> name"
    and closed: "ms3 = [] \<or> fst (hd ms3) = ''PROCESSING_START''"
  shows "map_of (dict_get (fst (group_timing_speed_tests (ms1 @ [(name, t)] @ ms2 @ ms3)))
            (1 + starts_speed_tests (ms1 @ [(name, t)])) []) name = Some (py_int t)"
proof -
  define st0 where "st0 = foldl timing_step_speed_tests ([], 1) ms1"
  define st1 where "st1 = timing_step_speed_tests st0 (name, t)"
  define st2 where "st2 = foldl timing_step_speed_tests st1 ms2"
  have st1': "st1 = foldl timing_step_speed_tests ([], 1) (ms1 @ [(name, t)])"
    by (simp add: st1_def st0_def)
  have cur1: "snd st1 = 1 + starts_speed_tests (ms1 @ [(name, t)])"
    unfolding st1' by (rule current_foldl_speed_tests)
  have "map_of (dict_get (fst st1) (snd st1) []) name = Some (py_int t)"
    unfolding st1_def using step_speed_tests_stores [of "fst st0" "snd st0" name t] by simp
  moreover have "map_of (dict_get (fst st2) (snd st1) []) name = map_of (dict_get (fst st1) (snd st1) []) name
      \<and> snd st2 = snd st1"
    unfolding st2_def
    using run_unchanged_quiet_speed_tests [OF quiet, of "fst st1" "snd st1" "snd st1"] by simp
  ultimately have a: "map_of (dict_get (fst st2) (snd st2) []) name = Some (py_int t)"
    and cur2: "snd st2 = snd st1"
    by simp_all
  have "dict_get (fst (foldl timing_step_speed_tests st2 ms3)) (snd st2) [] = dict_get (fst st2) (snd st2) []"
    using run_closed_by_marker_speed_tests [OF closed, of "fst st2" "snd st2"] by simp
  with a have "map_of (dict_get (fst (foldl timing_step_speed_tests st2 ms3)) (snd st2) []) name
      = Some (py_int t)"
    by simp
  moreover have "group_timing_speed_tests (ms1 @ [(name, t)] @ ms2 @ ms3)
      = foldl timing_step_speed_tests st2 ms3"
    by (simp add: group_timing_speed_tests_def st2_def st1_def st0_def)
  ultimately show ?thesis by (simp add: cur2 cur1)
qed

lemma group_count:
  "map fst (test_run_data (group_timing evs)) = [1..<Suc (starts evs)]"
  using keys_foldl [of timing_init evs] by (simp add: group_timing_def timing_init_def)

lemma parse_timing_data_rows:
  "map (\<lambda>r. map_of r ''Test Run #'') (parse_timing_data content)
     = map (\<lambda>k. Some (PInt (int k))) [1..<Suc (starts (all_matches content))]"
  by (simp add: parse_timing_data_def timing_rows_def group_count timing_row_def Let_def
        sorted_sort_id o_def del: upt_Suc)

lemma events_before_first_marker_discarded:
  assumes "starts pre = 0"
  shows "group_timing (pre @ evs) = group_timing evs"
proof -
  have "foldl timing_step timing_init pre = timing_init"
    using assms
  proof (induction pre rule: rev_induct)
    case Nil
    show ?case by simp
  next
    case (snoc ev pre)
    obtain pos n t src where ev: "ev = (pos, n, t, src)" by (cases ev) auto
    from snoc.prems have n: "n \<noteq> ''PROCESSING_START''" and p: "starts pre = 0"
      unfolding ev by (simp_all add: starts_append starts_Cons split: if_splits)
    from snoc.IH [OF p] show ?case unfolding ev using n
      by (simp add: timing_step_def Let_def timing_init_def)
  qed
  then show ?thesis by (simp add: group_timing_def)
qed

text \<open>
  Every run the extractor builds holds the timestamp of its boundary marker, so the phase
  calculation of \<open>parse_console_log.py\<close> never falls back on its default for
  \<open>PROCESSING_START\<close>.
\<close>

lemma map_of_store_event:
  "map_of (store_event trd r n t) k =
     (if k = r then Some (AList.update n t (dict_get trd r [])) else map_of trd k)"
  by (simp add: store_event_def update_conv')

lemma runs_hold_start_foldl:
  assumes "map fst (test_run_data st) = [1..<Suc (current_test_run st)]"
    and "\<And>k d. map_of (test_run_data st) k = Some d \<Longrightarrow> map_of d ''PROCESSING_START'' \<noteq> None"
    and "map_of (test_run_data (foldl timing_step st evs)) k = Some d"
  shows "map_of d ''PROCESSING_START'' \<noteq> None"
  using assms
proof (induction evs arbitrary: st)
  case Nil
  then show ?case by simp
next
  case (Cons ev evs)
  obtain pos n t src where ev: "ev = (pos, n, t, src)" by (cases ev) auto
  have keys: "map fst (test_run_data (timing_step st ev)) = [1..<Suc (current_test_run (timing_step st ev))]"
    using keys_foldl [OF Cons.prems(1), of "[ev]"] current_foldl [of st "[ev]"] by simp
  have inv: "\<And>k d. map_of (test_run_data (timing_step st ev)) k = Some d
      \<Longrightarrow> map_of d ''PROCESSING_START'' \<noteq> None"
  proof -
    fix k d
    assume a: "map_of (test_run_data (timing_step st ev)) k = Some d"
    show "map_of d ''PROCESSING_START'' \<noteq> None"
    proof (cases "n = ''PROCESSING_START''")
      case True
      from a Cons.prems(2) [of k d] show ?thesis unfolding ev True
        by (auto simp add: timing_step_start map_of_store_event update_conv' split: if_splits)
    next
      case False
      show ?thesis
      proof (cases "0 < current_test_run st")
        case c: True
        then have "current_test_run st \<in> set (map fst (test_run_data st))"
          unfolding Cons.prems(1) by simp
        then obtain d0 where d0: "map_of (test_run_data st) (current_test_run st) = Some d0"
          by (metis domD dom_map_of_conv_image_fst list.set_map)
        from Cons.prems(2) [OF d0] have "map_of d0 ''PROCESSING_START'' \<noteq> None" .
        with a Cons.prems(2) [of k d] False c d0 show ?thesis unfolding ev
          by (auto simp add: timing_step_other map_of_store_event update_conv' dict_get_def
                split: if_splits)
      next
        case c: False
        with a Cons.prems(2) [of k d] False show ?thesis unfolding ev
          by (simp add: timing_step_other)
      qed
    qed
  qed
  from Cons.IH [OF keys inv] Cons.prems(3) show ?case by simp
qed

lemma runs_hold_start:
  assumes "map_of (test_run_data (group_timing evs)) k = Some data"
  shows "\<exists>p. map_of data ''PROCESSING_START'' = Some p"
  using runs_hold_start_foldl [of timing_init evs k data] assms
  by (auto simp add: group_timing_def timing_init_def)

text \<open>
  Claim C5. An event stored in a run keeps its value when the events that follow it in the
  same run have other names (the last occurrence of a name wins), and whatever follows the
  next boundary marker, occurrences of the same name included, belongs to a later run and
  leaves the value alone. This holds for the grouping of both \<open>parse_console_log.py\<close>
  scripts; the older one numbers the run one higher.
\<close>

theorem last_write_wins:
  assumes "\<forall>ev\<in>set es2. event_name ev \<noteq> ''PROCESSING_START'' \<and> event_name ev \<noteq> name"
    and "es3 = [] \<or> event_name (hd es3) = ''PROCESSING_START''"
    and "0 < starts (es1 @ [(pos, name, v, src)])"
    and "\<forall>m\<in>set ms2. fst m \<noteq> ''PROCESSING_START'' \<and> fst m \<noteq> name"
    and "ms3 = [] \<or> fst (hd ms3) = ''PROCESSING_START''"
  shows "map_of (dict_get (test_run_data (group_timing (es1 @ [(pos, name, v, src)] @ es2 @ es3)))
            (starts (es1 @ [(pos, name, v, src)])) []) name = Some v
       \<and> map_of (dict_get (fst (group_timing_speed_tests (ms1 @ [(name, t)] @ ms2 @ ms3)))
            (1 + starts_speed_tests (ms1 @ [(name, t)])) []) name = Some (py_int t)"
  using last_write_wins_plans [OF assms(1-3)] last_write_wins_speed_tests [OF assms(4,5)]
  by (rule conjI)

theorem last_write_wins_witness:
  "event_name (80, ''B'', 7, ''main'') \<noteq> ''PROCESSING_START''
   \<and> event_name (80, ''B'', 7, ''main'') \<noteq> ''A''
   \<and> event_name (hd [(100, ''PROCESSING_START'', 20, ''main''), (140, ''A'', 50, ''main'')])
       = ''PROCESSING_START''
   \<and> 0 < starts ([(0, ''PROCESSING_START'', 10, ''main''), (40, ''A'', 0, ''main'')]
                  @ [(60, ''A'', 5, ''main'')])
   \<and> map_of (dict_get (test_run_data (group_timing
        ([(0, ''PROCESSING_START'', 10, ''main''), (40, ''A'', 0, ''main'')]
         @ [(60, ''A'', 5, ''main'')] @ [(80, ''B'', 7, ''main'')]
         @ [(100, ''PROCESSING_START'', 20, ''main''), (140, ''A'', 50, ''main'')]))) 1 []) ''A''
       = Some 5
   \<and> map_of (dict_get (fst (group_timing_speed_tests
        ([(''PROCESSING_START'', ''10''), (''A'', ''0'')] @ [(''A'', ''5'')] @ [(''B'', ''7'')]
         @ [(''PROCESSING_START'', ''20''), (''A'', ''50'')]))) 2 []) ''A''
       = Some 5"
proof -
  have h1: "\<forall>ev\<in>set [(80::nat, ''B'', 7::int, ''main'')].
      event_name ev \<noteq> ''PROCESSING_START'' \<and> event_name ev \<noteq> ''A''"
    by (simp add: event_name_def)
  have h2: "[(100::nat, ''PROCESSING_START'', 20::int, ''main''), (140, ''A'', 50, ''main'')] = []
      \<or> event_name (hd [(100::nat, ''PROCESSING_START'', 20::int, ''main''), (140, ''A'', 50, ''main'')])
          = ''PROCESSING_START''"
    by (simp add: event_name_def)
  have s: "starts ([(0, ''PROCESSING_START'', 10, ''main''), (40, ''A'', 0, ''main'')]
                  @ [(60, ''A'', 5, ''main'')]) = 1"
    by (simp add: starts_def event_name_def)
  have h3: "0 < starts ([(0, ''PROCESSING_START'', 10, ''main''), (40, ''A'', 0, ''main'')]
                  @ [(60, ''A'', 5, ''main'')])"
    unfolding s by simp
  have h4: "\<forall>m\<in>set [(''B'', ''7'')]. fst m \<noteq> ''PROCESSING_START'' \<and> fst m \<noteq> ''A''"
    by simp
  have h5: "[(''PROCESSING_START'', ''20''), (''A'', ''50'')] = []
      \<or> fst (hd [(''PROCESSING_START'', ''20''), (''A'', ''50'')]) = ''PROCESSING_START''"
    by simp
  have s': "starts_speed_tests ([(''PROCESSING_START'', ''10''), (''A'', ''0'')] @ [(''A'', ''5'')]) = 1"
    by (simp add: starts_speed_tests_def)
  have i: "py_int ''5'' = 5" by (simp add: py_int_def)
  from last_write_wins [OF h1 h2 h3 h4 h5, of "[(''PROCESSING_START'', ''10''), (''A'', ''0'')]" "''5''"]
  have "map_of (dict_get (test_run_data (group_timing
        ([(0, ''PROCESSING_START'', 10, ''main''), (40, ''A'', 0, ''main'')]
         @ [(60, ''A'', 5, ''main'')] @ [(80, ''B'', 7, ''main'')]
         @ [(100, ''PROCESSING_START'', 20, ''main''), (140, ''A'', 50, ''main'')]))) 1 []) ''A''
       = Some 5
   \<and> map_of (dict_get (fst (group_timing_speed_tests
        ([(''PROCESSING_START'', ''10''), (''A'', ''0'')] @ [(''A'', ''5'')] @ [(''B'', ''7'')]
         @ [(''PROCESSING_START'', ''20''), (''A'', ''50'')]))) 2 []) ''A''
       = Some 5"
    unfolding s s' i by (simp only: one_add_one)
  with h1 h3 show ?thesis by (simp add: event_name_def)
qed

text \<open>
  The scenario of the specification, on the text itself: two boundary markers, each followed
  by its own \<open>A\<close>, give two runs, each with its own value.
\<close>

lemma two_markers_two_values:
  "test_run_data (group_timing (all_matches
     ''processingTimer.js:1 PROCESSING_START: 10 processingTimer.js:2 A: 0 processingTimer.js:1 PROCESSING_START: 20 processingTimer.js:2 A: 50''))
   = [(1, [(''PROCESSING_START'', 10), (''A'', 0)]), (2, [(''PROCESSING_START'', 20), (''A'', 50)])]"
  by code_simp

text \<open>
  Claim C2 holds for the newer \<open>parse_console_log.py\<close>: see \<open>parse_timing_data_rows\<close>
  (as many rows as boundary markers, numbered from 1), \<open>events_before_first_marker_discarded\<close>
  and \<open>last_write_wins_plans\<close>. The older \<open>parse_console_log.py\<close> starts its counter at 1
  and has no guard: with one event before the only boundary marker it builds two groups, the
  first holding the event that was to be discarded, and the marker's own run is number 2.
\<close>

theorem speed_tests_groups_off_by_one:
  "starts_speed_tests (findall main_pattern
     ''processingTimer.js:1 FOO: 5 processingTimer.js:2 PROCESSING_START: 10'') = 1
   \<and> fst (group_timing_speed_tests (findall main_pattern
     ''processingTimer.js:1 FOO: 5 processingTimer.js:2 PROCESSING_START: 10''))
     = [(1, [(''FOO'', 5)]), (2, [(''PROCESSING_START'', 10)])]
   \<and> map (\<lambda>r. map_of r ''Test Run #'') (parse_timing_data_speed_tests
     ''processingTimer.js:1 FOO: 5 processingTimer.js:2 PROCESSING_START: 10'')
     = [Some (PInt 1), Some (PInt 2)]"
  by code_simp

section \<open>Records of the folder-metric extractors\<close>

lemma length_number_rows:
  "length (number_rows mk skip n ms) = length (filter (\<lambda>m. \<not> skip m) ms)"
  by (induction ms arbitrary: n) simp_all






lemma folder_row_cases:
  obtains e where "\<And>k. folder_row k m = Inl e" "malformed_blob m"
  | r where "\<And>k. folder_row k m = Inr ((''TestRun#'', PInt (int k)) # r)" "\<not> malformed_blob m"
proof (cases "extract_fields (\<lambda>field. PInt 0) float_fields field_patterns m []")
  case (Inl e)
  then have "\<And>k. folder_row k m = Inl e" by (simp add: folder_row_def)
  moreover from this have "malformed_blob m" by (simp add: malformed_blob_def)
  ultimately show ?thesis by (rule that(1))
next
  case (Inr data)
  show ?thesis
  proof (cases "index_all data row_columns")
    case (Inl e)
    with Inr have "\<And>k. folder_row k m = Inl e" by (simp add: folder_row_def)
    moreover from this have "malformed_blob m" by (simp add: malformed_blob_def)
    ultimately show ?thesis by (rule that(1))
  next
    case r: (Inr r)
    with Inr have "\<And>k. folder_row k m = Inr ((''TestRun#'', PInt (int k)) # r)"
      by (simp add: folder_row_def)
    moreover from this have "\<not> malformed_blob m" by (simp add: malformed_blob_def)
    ultimately show ?thesis by (rule that(2))
  qed
qed

lemma folder_fold:
  "folder_data (foldl folder_step st ms) =
     folder_data st @ number_rows (\<lambda>k m. the_row (folder_row k m)) malformed_blob (test_run st) ms
   \<and> (\<exists>ws. printed (foldl folder_step st ms) = printed st @ ws
          \<and> list_all2 (\<lambda>msg m. \<exists>e. msg = Warning_failed_to_parse m e) ws (filter malformed_blob ms))"
proof (induction ms arbitrary: st)
  case Nil
  show ?case by simp
next
  case (Cons m ms)
  show ?case
  proof (cases m rule: folder_row_cases)
    case (1 e)
    define st1 where "st1 = st\<lparr>printed := printed st @ [Warning_failed_to_parse m e]\<rparr>"
    have step: "folder_step st m = st1" by (simp add: folder_step_def 1 st1_def)
    from Cons [of st1] obtain ws where IH:
      "folder_data (foldl folder_step st1 ms) =
         folder_data st1 @ number_rows (\<lambda>k m. the_row (folder_row k m)) malformed_blob (test_run st1) ms"
      "printed (foldl folder_step st1 ms) = printed st1 @ ws"
      "list_all2 (\<lambda>msg m. \<exists>e. msg = Warning_failed_to_parse m e) ws (filter malformed_blob ms)"
      by blast
    have "printed (foldl folder_step st (m # ms)) = printed st @ (Warning_failed_to_parse m e # ws)"
      using IH(2) by (simp add: step st1_def)
    moreover have "list_all2 (\<lambda>msg m. \<exists>e. msg = Warning_failed_to_parse m e)
        (Warning_failed_to_parse m e # ws) (filter malformed_blob (m # ms))"
      using IH(3) 1(2) by simp
    moreover have "folder_data (foldl folder_step st (m # ms)) =
        folder_data st @ number_rows (\<lambda>k m. the_row (folder_row k m)) malformed_blob (test_run st) (m # ms)"
      using IH(1) 1(2) by (simp add: step st1_def)
    ultimately show ?thesis by blast
  next
    case (2 r)
    define st1 where "st1 = st\<lparr>folder_data := folder_data st @ [(''TestRun#'', PInt (int (test_run st))) # r],
        test_run := test_run st + 1\<rparr>"
    have step: "folder_step st m = st1" by (simp add: folder_step_def 2 st1_def)
    from Cons [of st1] show ?thesis using 2
      by (simp add: step st1_def the_row_def)
  qed
qed


lemma json_cases:
  obtains e where "loads m = Inl e" "malformed_json loads m" "warned_json loads m"
  | data e where "loads m = Inr data" "\<And>k. json_row k data = Inl e" "malformed_json loads m"
      "warned_json loads m"
  | d where "loads m = Inr (PDict d)" "\<not> malformed_json loads m"
      "\<And>k. json_row k (PDict d) =
          Inr ((''TestRun#'', PInt (int k)) # map (\<lambda>(key, dflt). (key, dict_get d key dflt)) json_columns)"
      "warned_json loads m = (format_1f (dict_get d ''totalSizeMB'' (PInt 0)) \<noteq> None)"
proof (cases "loads m")
  case (Inl e)
  then show ?thesis using that(1) by (simp add: malformed_json_def warned_json_def)
next
  case (Inr data)
  show ?thesis
  proof (cases data)
    case (PDict d)
    with Inr show ?thesis using that(3) [of d]
      by (simp add: malformed_json_def warned_json_def json_row_def)
  qed (use Inr that(2) [of data AttributeError] in
        \<open>simp_all add: malformed_json_def warned_json_def json_row_def\<close>)
qed

lemma json_fold:
  "folder_data (foldl (json_step loads) st ms) =
     folder_data st
     @ number_rows (\<lambda>k m. the_row (json_try loads k m)) (malformed_json loads) (test_run st) ms
   \<and> (\<exists>ws. printed (foldl (json_step loads) st ms) = printed st @ ws
          \<and> list_all2 (\<lambda>msg m. is_warning msg = warned_json loads m) ws ms)"
proof (induction ms arbitrary: st)
  case Nil
  show ?case by simp
next
  case (Cons m ms)
  have key: "\<exists>msg. is_warning msg = warned_json loads m
      \<and> printed (json_step loads st m) = printed st @ [msg]
      \<and> folder_data (json_step loads st m) @
          number_rows (\<lambda>k m. the_row (json_try loads k m)) (malformed_json loads)
            (test_run (json_step loads st m)) ms
        = folder_data st @
          number_rows (\<lambda>k m. the_row (json_try loads k m)) (malformed_json loads) (test_run st) (m # ms)"
  proof (cases m rule: json_cases [of loads])
    case (1 e)
    then show ?thesis
      by (cases "e = JSONDecodeError") (simp_all add: json_step_def is_warning_def)
  next
    case (2 data e)
    then show ?thesis
      by (simp add: json_step_def is_warning_def)
  next
    case (3 d)
    show ?thesis
    proof (cases "format_1f (dict_get d ''totalSizeMB'' (PInt 0))")
      case None
      with 3 show ?thesis
        by (simp add: json_step_def is_warning_def Let_def json_try_def the_row_def)
    next
      case (Some e)
      with 3 show ?thesis
        by (simp add: json_step_def is_warning_def Let_def json_try_def the_row_def)
    qed
  qed
  then obtain msg where msg: "is_warning msg = warned_json loads m"
    "printed (json_step loads st m) = printed st @ [msg]"
    "folder_data (json_step loads st m) @
          number_rows (\<lambda>k m. the_row (json_try loads k m)) (malformed_json loads)
            (test_run (json_step loads st m)) ms
        = folder_data st @
          number_rows (\<lambda>k m. the_row (json_try loads k m)) (malformed_json loads) (test_run st) (m # ms)"
    by blast
  from Cons [of "json_step loads st m"] obtain ws where IH:
    "folder_data (foldl (json_step loads) (json_step loads st m) ms) =
       folder_data (json_step loads st m)
       @ number_rows (\<lambda>k m. the_row (json_try loads k m)) (malformed_json loads)
           (test_run (json_step loads st m)) ms"
    "printed (foldl (json_step loads) (json_step loads st m) ms) = printed (json_step loads st m) @ ws"
    "list_all2 (\<lambda>msg m. is_warning msg = warned_json loads m) ws ms"
    by blast
  have "printed (foldl (json_step loads) st (m # ms)) = printed st @ (msg # ws)"
    using IH(2) msg(2) by simp
  moreover have "list_all2 (\<lambda>msg m. is_warning msg = warned_json loads m) (msg # ws) (m # ms)"
    using IH(3) msg(1) by simp
  moreover have "folder_data (foldl (json_step loads) st (m # ms)) =
     folder_data st
     @ number_rows (\<lambda>k m. the_row (json_try loads k m)) (malformed_json loads) (test_run st) (m # ms)"
    using IH(1) msg(3) by simp
  ultimately show ?case by blast
qed


lemma parse_folder_rows:
  "fst (parse_folder_analysis_data content) =
     number_rows (\<lambda>k m. the_row (folder_row k m)) malformed_blob 1 (findall modal_pattern content)"
  using folder_fold [of "\<lparr>folder_data = [], test_run = 1, printed = []\<rparr>" "findall modal_pattern content"]
  by (simp add: parse_folder_analysis_data_def Let_def)

lemma parse_json_rows:
  "fst (parse_json_folder_analysis_data loads content) =
     number_rows (\<lambda>k m. the_row (json_try loads k m)) (malformed_json loads) 1
       (findall json_pattern content)"
  using json_fold [of loads "\<lparr>folder_data = [], test_run = 1,
      printed = [Found_entries (length (findall json_pattern content))]\<rparr>" "findall json_pattern content"]
  by (simp add: parse_json_folder_analysis_data_def Let_def)

lemma length_filter_not:
  "length (filter (\<lambda>m. \<not> P m) xs) = length xs - length (filter P xs)"
  using sum_length_filter_compl [of P xs] by simp

text \<open>
  Claim C3. Both extractors are total functions of the text: whatever a blob holds, the
  exception it raises is caught inside the loop. With the markers read as the matches of the
  extractor's pattern and a malformed blob as one on which the body of the \<open>try\<close> raises
  before the record is appended, the number of records is the number of matches minus the
  number of malformed ones, so the matches behind a malformed one are still processed. The
  key:value extractor prints exactly one warning for each malformed match, in order; the JSON
  extractor prints one line for each match, which is a warning for every malformed match (and
  for a record whose size cannot be shown).
\<close>

theorem malformed_blobs_skipped:
  "length (fst (parse_folder_analysis_data content))
     = length (findall modal_pattern content)
       - length (filter malformed_blob (findall modal_pattern content))
   \<and> list_all2 (\<lambda>msg m. \<exists>e. msg = Warning_failed_to_parse m e)
        (snd (parse_folder_analysis_data content))
        (filter malformed_blob (findall modal_pattern content))
   \<and> length (fst (parse_json_folder_analysis_data loads content))
     = length (findall json_pattern content)
       - length (filter (malformed_json loads) (findall json_pattern content))
   \<and> (\<exists>ws. snd (parse_json_folder_analysis_data loads content)
              = Found_entries (length (findall json_pattern content)) # ws
          \<and> list_all2 (\<lambda>msg m. is_warning msg = warned_json loads m) ws
               (findall json_pattern content))
   \<and> list_all (warned_json loads) (filter (malformed_json loads) (findall json_pattern content))"
proof (intro conjI)
  show "length (fst (parse_folder_analysis_data content))
     = length (findall modal_pattern content)
       - length (filter malformed_blob (findall modal_pattern content))"
    by (simp only: parse_folder_rows length_number_rows length_filter_not)
  show "list_all2 (\<lambda>msg m. \<exists>e. msg = Warning_failed_to_parse m e)
        (snd (parse_folder_analysis_data content))
        (filter malformed_blob (findall modal_pattern content))"
    using folder_fold [of "\<lparr>folder_data = [], test_run = 1, printed = []\<rparr>"
        "findall modal_pattern content"]
    by (auto simp add: parse_folder_analysis_data_def Let_def)
  show "length (fst (parse_json_folder_analysis_data loads content))
     = length (findall json_pattern content)
       - length (filter (malformed_json loads) (findall json_pattern content))"
    by (simp only: parse_json_rows length_number_rows length_filter_not)
  show "\<exists>ws. snd (parse_json_folder_analysis_data loads content)
              = Found_entries (length (findall json_pattern content)) # ws
          \<and> list_all2 (\<lambda>msg m. is_warning msg = warned_json loads m) ws
               (findall json_pattern content)"
    using json_fold [of loads "\<lparr>folder_data = [], test_run = 1,
      printed = [Found_entries (length (findall json_pattern content))]\<rparr>" "findall json_pattern content"]
    by (auto simp add: parse_json_folder_analysis_data_def Let_def)
  show "list_all (warned_json loads) (filter (malformed_json loads) (findall json_pattern content))"
    unfolding list_all_iff
  proof
    fix m assume "m \<in> set (filter (malformed_json loads) (findall json_pattern content))"
    then have "malformed_json loads m" by simp
    then show "warned_json loads m"
      by (cases m rule: json_cases [of loads]) simp_all
  qed
qed



lemma example_modal_matches:
  "findall modal_pattern example_log =
     [''timestamp: 17, totalFiles: 3'', ''totalFiles: 4, totalSizeMB: 1.2.3'', ''totalFiles: 5'']"
  by code_simp

lemma example_modal_malformed:
  "\<not> malformed_blob ''timestamp: 17, totalFiles: 3''"
  "malformed_blob ''totalFiles: 4, totalSizeMB: 1.2.3''"
  "\<not> malformed_blob ''totalFiles: 5''"
  by code_simp+

lemma example_json_matches:
  \<open>findall json_pattern example_log =
     [''{"totalFiles": 3}'', ''{"totalFiles": }'', ''{"totalFiles": 5}'']\<close>
  by code_simp

lemma example_json_malformed:
  \<open>\<not> malformed_json example_loads ''{"totalFiles": 3}''\<close>
  \<open>malformed_json example_loads ''{"totalFiles": }''\<close>
  \<open>\<not> malformed_json example_loads ''{"totalFiles": 5}''\<close>
  by code_simp+



theorem malformed_blobs_skipped_witness:
  "length (findall modal_pattern example_log) = 3
   \<and> length (filter malformed_blob (findall modal_pattern example_log)) = 1
   \<and> length (fst (parse_folder_analysis_data example_log)) = 2
   \<and> length (snd (parse_folder_analysis_data example_log)) = 1
   \<and> length (findall json_pattern example_log) = 3
   \<and> length (filter (malformed_json example_loads) (findall json_pattern example_log)) = 1
   \<and> length (fst (parse_json_folder_analysis_data example_loads example_log)) = 2"
proof -
  have a: "length (findall modal_pattern example_log) = 3"
    "length (filter malformed_blob (findall modal_pattern example_log)) = 1"
    by (simp_all add: example_modal_matches example_modal_malformed)
  have b: "length (findall json_pattern example_log) = 3"
    "length (filter (malformed_json example_loads) (findall json_pattern example_log)) = 1"
    by (simp_all add: example_json_matches example_json_malformed)
  note t = malformed_blobs_skipped [of example_log example_loads]
  from t have r1: "length (fst (parse_folder_analysis_data example_log)) = 2"
    unfolding a by simp
  from t have "list_all2 (\<lambda>msg m. \<exists>e. msg = Warning_failed_to_parse m e)
      (snd (parse_folder_analysis_data example_log))
      (filter malformed_blob (findall modal_pattern example_log))"
    by simp
  then have "length (snd (parse_folder_analysis_data example_log))
      = length (filter malformed_blob (findall modal_pattern example_log))"
    by (rule list_all2_lengthD)
  then have r2: "length (snd (parse_folder_analysis_data example_log)) = 1"
    unfolding a .
  from t have r3: "length (fst (parse_json_folder_analysis_data example_loads example_log)) = 2"
    unfolding b by simp
  from a b r1 r2 r3 show ?thesis by simp
qed

section \<open>Field values and field types of the records\<close>

lemma extract_fields_typed:
  assumes "\<And>k v. map_of data k = Some v \<Longrightarrow> typed_by_name k v"
    and "extract_fields typed_default float_fields_improved fps m data = Inr data'"
  shows "map_of data' k = Some v \<Longrightarrow> typed_by_name k v"
  using assms
proof (induction fps arbitrary: data)
  case Nil
  then show ?case by simp
next
  case (Cons fp fps)
  obtain field cls where fp: "fp = (field, cls)" by (cases fp)
  have upd: "\<And>w k v. typed_by_name field w \<Longrightarrow> map_of (AList.update field w data) k = Some v
      \<Longrightarrow> typed_by_name k v"
    using Cons.prems(2) by (simp add: update_conv' split: if_splits)
  show ?case
  proof (cases "re_search (match_field field cls) m")
    case None
    have "typed_by_name field (typed_default field)"
      by (simp add: typed_by_name_def typed_default_def is_float_value_def is_int_value_def)
    from upd [OF this] Cons.IH [of "AList.update field (typed_default field) data"]
      Cons.prems(1,3) None
    show ?thesis unfolding fp by simp
  next
    case (Some s)
    show ?thesis
    proof (cases "field \<in> set float_fields_improved")
      case True
      with Cons.prems(3) Some obtain x where x: "py_float s = Some x"
        unfolding fp by (cases "py_float s") simp_all
      have "typed_by_name field (PFloat x)"
        using True by (simp add: typed_by_name_def is_float_value_def)
      from upd [OF this] Cons.IH [of "AList.update field (PFloat x) data"]
        Cons.prems(1,3) Some True x
      show ?thesis unfolding fp by simp
    next
      case False
      have "typed_by_name field (PInt (py_int s))"
        using False by (simp add: typed_by_name_def is_int_value_def)
      from upd [OF this] Cons.IH [of "AList.update field (PInt (py_int s)) data"]
        Cons.prems(1,3) Some False
      show ?thesis unfolding fp by simp
    qed
  qed
qed

lemma index_all_lookup:
  "index_all d ks = Inr r \<Longrightarrow> map_of r k = Some v \<Longrightarrow> map_of d k = Some v"
proof (induction ks arbitrary: r)
  case Nil
  then show ?case by simp
next
  case (Cons a ks)
  then show ?case
    by (auto simp add: dict_index_def split: sum.splits option.splits if_splits)
qed

lemma index_all_keys:
  "index_all d ks = Inr r \<Longrightarrow> map fst r = ks"
  by (induction ks arbitrary: r) (auto split: sum.splits)

lemma improved_parser_types_fixed:
  assumes "improved_row run_no m = Inr r" and "field \<in> set row_columns"
  shows "\<exists>v. map_of r field = Some v \<and> typed_by_name field v"
proof -
  from assms(1) obtain data r' where
    data: "extract_fields typed_default float_fields_improved field_patterns_improved m [] = Inr data"
    and r': "index_all data row_columns = Inr r'"
    and r: "r = (''TestRun#'', PInt (int run_no)) # r'"
    by (auto simp add: improved_row_def split: sum.splits)
  have ne: "field \<noteq> ''TestRun#''"
    using assms(2) by (auto simp add: row_columns_def)
  from index_all_keys [OF r'] assms(2) have "field \<in> fst ` set r'"
    by (metis list.set_map)
  then obtain v where v: "map_of r' field = Some v"
    by (metis domD dom_map_of_conv_image_fst)
  from index_all_lookup [OF r' v] have "map_of data field = Some v" .
  from extract_fields_typed [OF _ data this] have "typed_by_name field v" by simp
  with v ne show ?thesis by (simp add: r)
qed


text \<open>
  Claim C6 holds for \<open>improved_parser.py\<close> (\<open>improved_parser_types_fixed\<close>: every column
  of a record has the type its name declares, present or absent). In the newer
  \<open>parse_console_log.py\<close> the default of every field is the integer 0: a blob without sizes
  and average depth gives a record whose four float columns hold integers, where
  \<open>improved_parser.py\<close> gives 0.0 on the same blob.
\<close>

theorem absent_float_field_defaults_to_int:
  "findall modal_pattern (microscope @ '' FOLDER_ANALYSIS_DATA (Modal Predictors): {totalFiles: 3}'')
     = [''totalFiles: 3'']
   \<and> parse_folder_analysis_data
       (microscope @ '' FOLDER_ANALYSIS_DATA (Modal Predictors): {totalFiles: 3}'')
     = ([[(''TestRun#'', PInt 1), (''timestamp'', PInt 0), (''totalFiles'', PInt 3),
          (''duplicateCandidateCount'', PInt 0), (''duplicateCandidatePercent'', PInt 0),
          (''uniqueFilesSizeMB'', PInt 0), (''duplicateCandidatesSizeMB'', PInt 0),
          (''totalSizeMB'', PInt 0), (''totalDirectoryCount'', PInt 0),
          (''maxDirectoryDepth'', PInt 0), (''uniqueFilesTotal'', PInt 0),
          (''avgDirectoryDepth'', PInt 0)]], [])
   \<and> improved_row 1 ''totalFiles: 3''
     = Inr [(''TestRun#'', PInt 1), (''timestamp'', PInt 0), (''totalFiles'', PInt 3),
          (''duplicateCandidateCount'', PInt 0), (''duplicateCandidatePercent'', PInt 0),
          (''uniqueFilesSizeMB'', PFloat 0), (''duplicateCandidatesSizeMB'', PFloat 0),
          (''totalSizeMB'', PFloat 0), (''totalDirectoryCount'', PInt 0),
          (''maxDirectoryDepth'', PInt 0), (''uniqueFilesTotal'', PInt 0),
          (''avgDirectoryDepth'', PFloat 0)]"
  by code_simp


















section \<open>Lines of the tabular writer\<close>











section \<open>Exit codes\<close>











end
